theory Spec2Isabelle
  imports Main "HOL-Library.Sublist"
begin

section \<open>Python values\<close>

text \<open>
  A Python \<open>str\<close> is a sequence of Unicode code points, so it is modelled as a list of
  natural numbers; \<open>lit\<close> turns an ASCII literal into such a list. Values that come out
  of \<open>json.load\<close> or out of a request's argument bag are \<open>json\<close> values: \<open>None\<close>,
  \<open>bool\<close>, \<open>int\<close>, \<open>str\<close>, \<open>list\<close> and \<open>dict\<close> (an association list, looked up
  with \<open>map_of\<close>). JSON numbers with a fraction or an exponent (Python floats) are left
  out of the model.
\<close>

type_synonym pystr = "nat list"

definition lit :: "string \<Rightarrow> pystr" where
  "lit s = map of_char s"

datatype json =
    JNull
  | JBool bool
  | JInt int
  | JStr pystr
  | JList "json list"
  | JDict "(pystr \<times> json) list"

datatype exn =
    FileNotFoundError
  | JSONDecodeError
  | AttributeError
  | TypeError
  | ValidationError
  | ValueError
  | KeyError

text \<open>The code points that \<open>str.strip()\<close> removes (\<open>str.isspace\<close>).\<close>

definition py_isspace :: "nat \<Rightarrow> bool" where
  "py_isspace c \<longleftrightarrow>
     (0x09 \<le> c \<and> c \<le> 0x0D) \<or> (0x1C \<le> c \<and> c \<le> 0x20) \<or> c = 0x85 \<or> c = 0xA0 \<or>
     c = 0x1680 \<or> (0x2000 \<le> c \<and> c \<le> 0x200A) \<or> c = 0x2028 \<or> c = 0x2029 \<or>
     c = 0x202F \<or> c = 0x205F \<or> c = 0x3000"

definition strip :: "pystr \<Rightarrow> pystr" where
  "strip s = rev (dropWhile py_isspace (rev (dropWhile py_isspace s)))"

text \<open>\<open>s.rstrip(chars)\<close>: trailing code points that occur in \<open>chars\<close> are removed.\<close>

definition rstrip :: "pystr \<Rightarrow> pystr \<Rightarrow> pystr" where
  "rstrip chars s = rev (dropWhile (\<lambda>c. c \<in> set chars) (rev s))"

text \<open>
  \<open>s.replace(old, new)\<close>: the occurrences of \<open>old\<close> are found from left to right
  without overlap. For an empty \<open>old\<close> Python puts \<open>new\<close> around every code point.
\<close>

function py_replace :: "pystr \<Rightarrow> pystr \<Rightarrow> pystr \<Rightarrow> pystr" where
  "py_replace old new s =
     (if old = [] then new @ concat (map (\<lambda>c. c # new) s)
      else if prefix old s then new @ py_replace old new (drop (length old) s)
      else (case s of [] \<Rightarrow> [] | c # cs \<Rightarrow> c # py_replace old new cs))"
  by pat_completeness auto
termination
  by (relation "measure (\<lambda>(old, new, s). length s)") (auto simp: prefix_def)

declare py_replace.simps [simp del]

text \<open>Truth value of a Python object, as \<open>if x\<close> and the conditional expression use it.\<close>

fun truthy :: "json \<Rightarrow> bool" where
  "truthy JNull = False"
| "truthy (JBool b) = b"
| "truthy (JInt i) = (i \<noteq> 0)"
| "truthy (JStr s) = (s \<noteq> [])"
| "truthy (JList xs) = (xs \<noteq> [])"
| "truthy (JDict kvs) = (kvs \<noteq> [])"

section \<open>\<open>json.dumps\<close>\<close>

text \<open>
  \<open>json.dumps\<close> with its defaults: separators \<open>", "\<close> and \<open>": "\<close>, and
  \<open>ensure_ascii\<close>, which writes every code point outside the printable ASCII range as
  \<open>\<bsol>uXXXX\<close> (a surrogate pair above \<open>0xFFFF\<close>).
\<close>

definition hexdigit :: "nat \<Rightarrow> nat" where
  "hexdigit d = (if d < 10 then 48 + d else 87 + d)"

definition hex4 :: "nat \<Rightarrow> pystr" where
  "hex4 n = [hexdigit (n div 4096 mod 16), hexdigit (n div 256 mod 16),
             hexdigit (n div 16 mod 16), hexdigit (n mod 16)]"

definition escape_char :: "nat \<Rightarrow> pystr" where
  "escape_char c =
     (if c = 34 then [92, 34]
      else if c = 92 then [92, 92]
      else if c = 10 then [92, 110]
      else if c = 13 then [92, 114]
      else if c = 9 then [92, 116]
      else if c = 8 then [92, 98]
      else if c = 12 then [92, 102]
      else if 32 \<le> c \<and> c \<le> 126 then [c]
      else if c < 0x10000 then [92, 117] @ hex4 c
      else (let n = c - 0x10000 in
            [92, 117] @ hex4 (0xD800 + n div 1024 mod 1024) @
            [92, 117] @ hex4 (0xDC00 + n mod 1024)))"

definition dumps_str :: "pystr \<Rightarrow> pystr" where
  "dumps_str s = [34] @ concat (map escape_char s) @ [34]"

fun decimal :: "nat \<Rightarrow> pystr" where
  "decimal n = (if n < 10 then [48 + n] else decimal (n div 10) @ [48 + n mod 10])"

declare decimal.simps [simp del]

fun join :: "pystr \<Rightarrow> pystr list \<Rightarrow> pystr" where
  "join sep [] = []"
| "join sep [x] = x"
| "join sep (x # y # zs) = x @ sep @ join sep (y # zs)"

fun json_dumps :: "json \<Rightarrow> pystr" where
  "json_dumps JNull = lit ''null''"
| "json_dumps (JBool b) = (if b then lit ''true'' else lit ''false'')"
| "json_dumps (JInt i) = (if i < 0 then 45 # decimal (nat (- i)) else decimal (nat i))"
| "json_dumps (JStr s) = dumps_str s"
| "json_dumps (JList xs) = [91] @ join (lit '', '') (map json_dumps xs) @ [93]"
| "json_dumps (JDict kvs) =
     [123] @ join (lit '', '') (map (\<lambda>(k, v). dumps_str k @ lit '': '' @ json_dumps v) kvs) @ [125]"

section \<open>Models\<close>

text \<open>
  \<open>class Task(BaseModel)\<close>. The annotation \<open>done: bool\<close> is enforced when a \<open>Task\<close> is
  constructed; the assignment \<open>task.done = done\<close> in \<open>mark_done\<close> is not validated, so
  the field holds whatever value the request carried and is a \<open>json\<close> value here.
\<close>

record Task =
  task_id :: pystr
  task_text :: pystr
  task_done :: json
  task_created_at :: pystr
  task_due_date :: "pystr option"

text \<open>
  Field validation of pydantic (lax mode): a \<open>str\<close> field takes a string only; a
  \<open>bool\<close> field takes a boolean, the integers 0 and 1, and the strings of the
  conversion table, compared without regard to ASCII case.
\<close>

definition ascii_lower :: "nat \<Rightarrow> nat" where
  "ascii_lower c = (if 65 \<le> c \<and> c \<le> 90 then c + 32 else c)"

definition validate_str :: "json \<Rightarrow> pystr option" where
  "validate_str v = (case v of JStr s \<Rightarrow> Some s | _ \<Rightarrow> None)"

definition validate_bool :: "json \<Rightarrow> bool option" where
  "validate_bool v =
     (case v of
        JBool b \<Rightarrow> Some b
      | JInt i \<Rightarrow> (if i = 0 then Some False else if i = 1 then Some True else None)
      | JStr s \<Rightarrow>
          (let l = map ascii_lower s in
           if l \<in> set (map lit [''0'', ''off'', ''f'', ''false'', ''n'', ''no'']) then Some False
           else if l \<in> set (map lit [''1'', ''on'', ''t'', ''true'', ''y'', ''yes'']) then Some True
           else None)
      | _ \<Rightarrow> None)"

definition validate_opt_str :: "json \<Rightarrow> pystr option option" where
  "validate_opt_str v = (case v of JNull \<Rightarrow> Some None | JStr s \<Rightarrow> Some (Some s) | _ \<Rightarrow> None)"

text \<open>
  \<open>Task(**kw)\<close>: \<open>id\<close>, \<open>text\<close> and \<open>created_at\<close> are required, \<open>done\<close> defaults to
  \<open>False\<close> and \<open>due_date\<close> to \<open>None\<close>; keys that are not fields are ignored.
\<close>

definition Task_init :: "(pystr \<times> json) list \<Rightarrow> exn + Task" where
  "Task_init kw =
     (case (Option.bind (map_of kw (lit ''id'')) validate_str,
            Option.bind (map_of kw (lit ''text'')) validate_str,
            (case map_of kw (lit ''done'') of None \<Rightarrow> Some False | Some v \<Rightarrow> validate_bool v),
            Option.bind (map_of kw (lit ''created_at'')) validate_str,
            (case map_of kw (lit ''due_date'') of None \<Rightarrow> Some None | Some v \<Rightarrow> validate_opt_str v))
      of (Some i, Some t, Some d, Some c, Some dd) \<Rightarrow>
           Inr \<lparr>task_id = i, task_text = t, task_done = JBool d, task_created_at = c,
                task_due_date = dd\<rparr>
       | _ \<Rightarrow> Inl ValidationError)"

definition model_dump :: "Task \<Rightarrow> json" where
  "model_dump t =
     JDict [(lit ''id'', JStr (task_id t)),
            (lit ''text'', JStr (task_text t)),
            (lit ''done'', task_done t),
            (lit ''created_at'', JStr (task_created_at t)),
            (lit ''due_date'', (case task_due_date t of None \<Rightarrow> JNull | Some s \<Rightarrow> JStr s))]"

section \<open>Storage helpers\<close>

text \<open>
  The data file either does not exist, or holds text that \<open>json.load\<close> rejects, or
  holds a JSON document.
\<close>

datatype store_file = NoFile | Malformed | Document json

text \<open>Lines 40 to 43: the file is created with an empty list when it does not exist.\<close>

definition module_init :: "store_file \<Rightarrow> store_file" where
  "module_init file =
     (case file of NoFile \<Rightarrow> Document (JDict [(lit ''tasks'', JList [])]) | _ \<Rightarrow> file)"

text \<open>
  Iterating a Python object: a list gives its elements, a string its characters, a dict
  its keys; the other values are not iterable.
\<close>

definition py_iter :: "json \<Rightarrow> exn + json list" where
  "py_iter v =
     (case v of
        JList xs \<Rightarrow> Inr xs
      | JStr s \<Rightarrow> Inr (map (\<lambda>c. JStr [c]) s)
      | JDict kvs \<Rightarrow> Inr (map (\<lambda>(k, v). JStr k) kvs)
      | _ \<Rightarrow> Inl TypeError)"

text \<open>\<open>Task(**t)\<close> for one element: the argument after \<open>**\<close> must be a mapping.\<close>

definition Task_of :: "json \<Rightarrow> exn + Task" where
  "Task_of t = (case t of JDict kw \<Rightarrow> Task_init kw | _ \<Rightarrow> Inl TypeError)"

text \<open>The list comprehension: the first element that raises ends it.\<close>

fun Task_list :: "json list \<Rightarrow> exn + Task list" where
  "Task_list [] = Inr []"
| "Task_list (t # ts) =
     (case Task_of t of
        Inl e \<Rightarrow> Inl e
      | Inr x \<Rightarrow> (case Task_list ts of Inl e \<Rightarrow> Inl e | Inr xs \<Rightarrow> Inr (x # xs)))"

definition read_store :: "store_file \<Rightarrow> exn + Task list" where
  "read_store file =
     (case file of
        NoFile \<Rightarrow> Inl FileNotFoundError
      | Malformed \<Rightarrow> Inl JSONDecodeError
      | Document raw \<Rightarrow>
          (case raw of
             JDict kvs \<Rightarrow>
               (case py_iter (case map_of kvs (lit ''tasks'') of None \<Rightarrow> JList [] | Some v \<Rightarrow> v) of
                  Inl e \<Rightarrow> Inl e
                | Inr ts \<Rightarrow> Task_list ts)
           | _ \<Rightarrow> Inl AttributeError))"

definition tasks_data_of :: "Task list \<Rightarrow> json" where
  "tasks_data_of tasks = JDict [(lit ''tasks'', JList (map model_dump tasks))]"

definition write_store :: "Task list \<Rightarrow> store_file" where
  "write_store tasks = Document (tasks_data_of tasks)"

section \<open>Widget HTML\<close>

definition WIDGET_ASSET_ROUTE :: pystr where
  "WIDGET_ASSET_ROUTE = lit ''/widget-assets''"

definition TODO_WIDGET_HTML :: string where
  \<open>TODO_WIDGET_HTML = ''
<!DOCTYPE html>
<html lang="en">
<head>
    <meta charset="UTF-8">
    <meta name="viewport" content="width=device-width, initial-scale=1.0">
    <link rel="stylesheet" href="{CSS_PATH}">
</head>
<body>
    <div id="todo-root" data-widget-version="{WIDGET_VERSION}"></div>
    <script id="todo-data" type="application/json">{{TASKS_JSON}}</script>
    <script type="module">
        import {{ renderTodoWidget }} from "{JS_PATH}";
        const dataEl = document.getElementById("todo-data");
        let payload = {{ tasks: [] }};
        try {{
            payload = JSON.parse(dataEl.textContent);
        }} catch (error) {{
            console.error("todo-widget: failed to parse JSON", error);
        }}
        const root = document.getElementById("todo-root");
        renderTodoWidget({{ root, tasks: payload.tasks ?? [], postMessageTarget: window.parent }});
    </script>
</body>
</html>
''\<close>

text \<open>
  \<open>template.format(**kw)\<close> for a template whose replacement fields are plain names, as
  the widget template's are: \<open>{{\<close> and \<open>}}\<close> stand for one brace, \<open>{name}\<close> is
  replaced by the value of \<open>name\<close> (which is not scanned again), a brace on its own is a
  \<open>ValueError\<close> and an unknown name a \<open>KeyError\<close>. The second argument is the field
  name read so far, \<open>None\<close> outside a field.
\<close>

fun py_format :: "(string \<times> pystr) list \<Rightarrow> string option \<Rightarrow> string \<Rightarrow> exn + pystr" where
  "py_format kw None [] = Inr []"
| "py_format kw None (c # cs) =
     (if c = CHR ''{'' then
        (case cs of
           [] \<Rightarrow> Inl ValueError
         | d # ds \<Rightarrow>
             if d = CHR ''{'' then map_sum (\<lambda>e. e) (\<lambda>r. 123 # r) (py_format kw None ds)
             else py_format kw (Some []) cs)
      else if c = CHR ''}'' then
        (case cs of
           [] \<Rightarrow> Inl ValueError
         | d # ds \<Rightarrow>
             if d = CHR ''}'' then map_sum (\<lambda>e. e) (\<lambda>r. 125 # r) (py_format kw None ds)
             else Inl ValueError)
      else map_sum (\<lambda>e. e) (\<lambda>r. of_char c # r) (py_format kw None cs))"
| "py_format kw (Some name) [] = Inl ValueError"
| "py_format kw (Some name) (c # cs) =
     (if c = CHR ''}'' then
        (case map_of kw name of
           None \<Rightarrow> Inl KeyError
         | Some v \<Rightarrow> map_sum (\<lambda>e. e) (\<lambda>r. v @ r) (py_format kw None cs))
      else py_format kw (Some (name @ [c])) cs)"

text \<open>
  \<open>tasks_json\<close> is line 129: the JSON text of the payload with every \<open></\<close> rewritten to
  \<open><\<bsol>/\<close>.
\<close>

definition tasks_json :: "json \<Rightarrow> pystr" where
  "tasks_json tasks_data = py_replace (lit ''</'') [60, 92, 47] (json_dumps tasks_data)"

definition format_widget :: "pystr \<Rightarrow> exn + pystr" where
  "format_widget ver =
     (let assets_base = rstrip (lit ''/'') WIDGET_ASSET_ROUTE;
          css_path = assets_base @ lit ''/todo.css?v='' @ ver;
          js_path = assets_base @ lit ''/todo.js?v='' @ ver
      in py_format [(''CSS_PATH'', css_path), (''JS_PATH'', js_path), (''WIDGET_VERSION'', ver)]
           None TODO_WIDGET_HTML)"

text \<open>
  \<open>_render_widget_html\<close>; \<open>ver\<close> is \<open>WIDGET_ASSET_VERSION\<close>, read from the process
  environment when the module is loaded.
\<close>

definition render_widget_html :: "pystr \<Rightarrow> json \<Rightarrow> exn + pystr" where
  "render_widget_html ver tasks_data =
     (let tj = tasks_json tasks_data
      in case format_widget ver of
           Inl e \<Rightarrow> Inl e
         | Inr html \<Rightarrow> Inr (py_replace (lit ''{{TASKS_JSON}}'') tj html))"

section \<open>Tool dispatch\<close>

text \<open>
  What a call draws from its surroundings: the string of \<open>uuid.uuid4()\<close> and the
  \<open>isoformat()\<close> of \<open>datetime.utcnow()\<close>.
\<close>

record env =
  uuid4 :: pystr
  utcnow :: pystr

record CallToolRequest =
  params_name :: pystr
  params_arguments :: "(pystr \<times> json) list option"

text \<open>
  The text block of a result. The f-strings are kept as constructors with their
  interpolated values: \<open>Added_task t\<close> is \<open>"\<checkmark> Added task: {t}"\<close>, \<open>Task_completed\<close> and
  \<open>Task_reopened\<close> are the two readings of \<open>"\<checkmark> Task {...}!"\<close>,
  \<open>Error_Task_with_ID_not_found v\<close> is \<open>"Error: Task with ID {v} not found"\<close>,
  \<open>Unknown_tool n\<close> is \<open>"Unknown tool: {n}"\<close> and \<open>Error_exception e\<close> is \<open>"Error: {str(e)}"\<close>.
\<close>

datatype text_content =
    Here_are_your_tasks
  | Error_Task_text_cannot_be_empty
  | Added_task pystr
  | Task_completed
  | Task_reopened
  | Error_Task_with_ID_not_found json
  | Unknown_tool pystr
  | Error_exception exn

text \<open>
  \<open>CallToolResult\<close>: \<open>meta\<close> is the text of the widget resource under
  \<open>"openai.com/widget"\<close> when \<open>_meta\<close> is given and \<open>None\<close> when it is not.
\<close>

record CallToolResult =
  content :: "text_content list"
  structuredContent :: "json option"
  isError :: bool
  meta :: "pystr option"

definition error_result :: "text_content \<Rightarrow> CallToolResult" where
  "error_result msg = \<lparr>content = [msg], structuredContent = None, isError = True, meta = None\<rparr>"

definition widget_result :: "text_content \<Rightarrow> json \<Rightarrow> pystr \<Rightarrow> CallToolResult" where
  "widget_result msg tasks_data html =
     \<lparr>content = [msg], structuredContent = Some tasks_data, isError = False, meta = Some html\<rparr>"

text \<open>
  The tail shared by the three tools: build \<open>_meta\<close> from \<open>tasks_data\<close> and return the
  result. An exception raised here reaches the handler's \<open>except\<close> with the file as it is
  by then.
\<close>

definition respond :: "pystr \<Rightarrow> text_content \<Rightarrow> json \<Rightarrow> store_file \<Rightarrow> CallToolResult \<times> store_file" where
  "respond ver msg tasks_data file =
     (case render_widget_html ver tasks_data of
        Inl e \<Rightarrow> (error_result (Error_exception e), file)
      | Inr html \<Rightarrow> (widget_result msg tasks_data html, file))"

definition get_tasks :: "pystr \<Rightarrow> store_file \<Rightarrow> CallToolResult \<times> store_file" where
  "get_tasks ver file =
     (case read_store file of
        Inl e \<Rightarrow> (error_result (Error_exception e), file)
      | Inr tasks \<Rightarrow> respond ver Here_are_your_tasks (tasks_data_of tasks) file)"

text \<open>\<open>args.get("text", "").strip()\<close>: only a \<open>str\<close> has the method.\<close>

definition text_arg :: "(pystr \<times> json) list \<Rightarrow> exn + pystr" where
  "text_arg args =
     (case map_of args (lit ''text'') of
        None \<Rightarrow> Inr (strip [])
      | Some (JStr s) \<Rightarrow> Inr (strip s)
      | Some _ \<Rightarrow> Inl AttributeError)"

definition arg_or_None :: "(pystr \<times> json) list \<Rightarrow> pystr \<Rightarrow> json" where
  "arg_or_None args k = (case map_of args k of None \<Rightarrow> JNull | Some v \<Rightarrow> v)"

definition add_task :: "pystr \<Rightarrow> env \<Rightarrow> (pystr \<times> json) list \<Rightarrow> store_file \<Rightarrow> CallToolResult \<times> store_file" where
  "add_task ver e args file =
     (case text_arg args of
        Inl x \<Rightarrow> (error_result (Error_exception x), file)
      | Inr text \<Rightarrow>
          if text = [] then (error_result Error_Task_text_cannot_be_empty, file)
          else
            (case read_store file of
               Inl x \<Rightarrow> (error_result (Error_exception x), file)
             | Inr tasks \<Rightarrow>
                 (case Task_init [(lit ''id'', JStr (uuid4 e)),
                                  (lit ''text'', JStr text),
                                  (lit ''done'', JBool False),
                                  (lit ''created_at'', JStr (utcnow e @ lit ''Z'')),
                                  (lit ''due_date'', arg_or_None args (lit ''due_date''))] of
                    Inl x \<Rightarrow> (error_result (Error_exception x), file)
                  | Inr new_task \<Rightarrow>
                      (let tasks' = tasks @ [new_task]
                       in respond ver (Added_task (task_text new_task)) (tasks_data_of tasks')
                            (write_store tasks')))))"

text \<open>
  The loop of \<open>mark_done\<close>: the first task whose id equals \<open>task_id\<close> gets the new
  \<open>done\<close> and the loop ends; the second component is the flag \<open>updated\<close>.
\<close>

fun mark_loop :: "json \<Rightarrow> json \<Rightarrow> Task list \<Rightarrow> Task list \<times> bool" where
  "mark_loop tid d [] = ([], False)"
| "mark_loop tid d (task # rest) =
     (if JStr (task_id task) = tid then (task\<lparr>task_done := d\<rparr> # rest, True)
      else (case mark_loop tid d rest of (rest', updated) \<Rightarrow> (task # rest', updated)))"

text \<open>\<open>args.get("done", True)\<close>.\<close>

definition done_arg :: "(pystr \<times> json) list \<Rightarrow> json" where
  "done_arg args = (case map_of args (lit ''done'') of None \<Rightarrow> JBool True | Some v \<Rightarrow> v)"

definition mark_done :: "pystr \<Rightarrow> (pystr \<times> json) list \<Rightarrow> store_file \<Rightarrow> CallToolResult \<times> store_file" where
  "mark_done ver args file =
     (let tid = arg_or_None args (lit ''task_id'');
          d = done_arg args
      in case read_store file of
           Inl x \<Rightarrow> (error_result (Error_exception x), file)
         | Inr tasks \<Rightarrow>
             (case mark_loop tid d tasks of
                (tasks', updated) \<Rightarrow>
                  if \<not> updated then (error_result (Error_Task_with_ID_not_found tid), file)
                  else respond ver (if truthy d then Task_completed else Task_reopened)
                         (tasks_data_of tasks') (write_store tasks')))"

text \<open>
  \<open>_handle_call_tool\<close>: \<open>ver\<close> is the asset version, \<open>file\<close> the data file before the call;
  \<open>request_args\<close> is \<open>req.params.arguments or {}\<close>.
\<close>

definition request_args :: "CallToolRequest \<Rightarrow> (pystr \<times> json) list" where
  "request_args req = (case params_arguments req of None \<Rightarrow> [] | Some a \<Rightarrow> a)"

definition handle_call_tool :: "pystr \<Rightarrow> env \<Rightarrow> CallToolRequest \<Rightarrow> store_file \<Rightarrow> CallToolResult \<times> store_file" where
  "handle_call_tool ver e req file =
     (let tool_name = params_name req;
          args = request_args req
      in if tool_name = lit ''get_tasks'' then get_tasks ver file
         else if tool_name = lit ''add_task'' then add_task ver e args file
         else if tool_name = lit ''mark_done'' then mark_done ver args file
         else (error_result (Unknown_tool tool_name), file))"

section \<open>Predicates used in the statements\<close>

text \<open>\<open>has_close s\<close>: the two code points \<open></\<close> occur next to each other in \<open>s\<close>.\<close>

fun has_close :: "pystr \<Rightarrow> bool" where
  "has_close (a # b # r) = ((a = 60 \<and> b = 47) \<or> has_close (b # r))"
| "has_close _ = False"

text \<open>\<open>bool_done t\<close>: the \<open>done\<close> field holds a boolean, as it does after validation.\<close>

definition bool_done :: "Task \<Rightarrow> bool" where
  "bool_done t \<longleftrightarrow> (case task_done t of JBool b \<Rightarrow> True | _ \<Rightarrow> False)"

text \<open>
  The invariant of the data model: the ids are pairwise distinct and no text is empty.
  \<open>store_inv\<close> says that the data file is what \<open>_write_store\<close> writes for a list with
  the invariant.
\<close>

definition task_list_inv :: "Task list \<Rightarrow> bool" where
  "task_list_inv ts \<longleftrightarrow> distinct (map task_id ts) \<and> (\<forall>t\<in>set ts. task_text t \<noteq> [])"

definition store_inv :: "store_file \<Rightarrow> bool" where
  "store_inv file \<longleftrightarrow> (\<exists>ts. file = write_store ts \<and> task_list_inv ts)"

text \<open>
  \<open>fresh_uuid e file\<close>: the string that \<open>uuid4\<close> returns in this call is the id of no
  stored task. The code relies on it: \<open>add_task\<close> does not compare the new id with the
  stored ones.
\<close>

definition fresh_uuid :: "env \<Rightarrow> store_file \<Rightarrow> bool" where
  "fresh_uuid e file \<longleftrightarrow>
     (case read_store file of Inl x \<Rightarrow> True | Inr ts \<Rightarrow> uuid4 e \<notin> set (map task_id ts))"

text \<open>
  A sequence of calls, each with what it draws from the clock and from \<open>uuid4\<close>:
  \<open>run\<close> is the data file after the calls, \<open>fresh_draws\<close> says that every
  \<open>add_task\<close> call of the sequence draws a fresh id.
\<close>

fun run :: "pystr \<Rightarrow> (env \<times> CallToolRequest) list \<Rightarrow> store_file \<Rightarrow> store_file" where
  "run ver [] file = file"
| "run ver ((e, req) # calls) file = run ver calls (snd (handle_call_tool ver e req file))"

fun fresh_draws :: "pystr \<Rightarrow> (env \<times> CallToolRequest) list \<Rightarrow> store_file \<Rightarrow> bool" where
  "fresh_draws ver [] file = True"
| "fresh_draws ver ((e, req) # calls) file =
     ((params_name req = lit ''add_task'' \<longrightarrow> fresh_uuid e file) \<and>
      fresh_draws ver calls (snd (handle_call_tool ver e req file)))"

text \<open>
  \<open>count_close s\<close> is the number of places of \<open>s\<close> where \<open></\<close> occurs;
  \<open>contains P s\<close> says that \<open>P\<close> occurs in \<open>s\<close>, and \<open>starts P s\<close> that \<open>s\<close>
  begins with \<open>P\<close>.
\<close>

fun count_close :: "pystr \<Rightarrow> nat" where
  "count_close (a # b # r) = (if a = 60 \<and> b = 47 then 1 else 0) + count_close (b # r)"
| "count_close _ = 0"

fun starts :: "pystr \<Rightarrow> pystr \<Rightarrow> bool" where
  "starts [] s = True"
| "starts (p # ps) [] = False"
| "starts (p # ps) (c # cs) = (if p = c then starts ps cs else False)"

fun contains :: "pystr \<Rightarrow> pystr \<Rightarrow> bool" where
  "contains P [] = (P = [])"
| "contains P (c # cs) = (if starts P (c # cs) then True else contains P cs)"

section \<open>Auxiliary facts\<close>

subsection \<open>Strings\<close>

lemma py_replace_Nil: "old \<noteq> [] \<Longrightarrow> py_replace old new [] = []"
  by (simp add: py_replace.simps)

lemma py_replace_hit:
  "old \<noteq> [] \<Longrightarrow> prefix old s \<Longrightarrow> py_replace old new s = new @ py_replace old new (drop (length old) s)"
  by (subst py_replace.simps) simp

lemma py_replace_miss:
  "old \<noteq> [] \<Longrightarrow> \<not> prefix old (c # cs) \<Longrightarrow> py_replace old new (c # cs) = c # py_replace old new cs"
  by (subst py_replace.simps) simp

lemma has_close_sublist: "has_close s \<longleftrightarrow> sublist [60, 47] s"
proof (induction s rule: has_close.induct)
  case (1 a b r)
  show ?case
    using 1 by (auto simp: sublist_Cons_right prefix_Cons)
qed (auto simp: sublist_Cons_right)

lemma escape_hd: "py_replace [60, 47] [60, 92, 47] s = [] \<longleftrightarrow> s = []"
  by (cases s) (auto simp: py_replace.simps[of _ _ "_ # _"] py_replace_Nil)

lemma escape_first:
  "s \<noteq> [] \<Longrightarrow> hd (py_replace [60, 47] [60, 92, 47] s) = hd s"
  by (cases s) (auto simp: py_replace.simps[of _ _ "_ # _"])

lemma escape_no_close: "\<not> has_close (py_replace [60, 47] [60, 92, 47] s)"
proof (induction s rule: length_induct)
  case (1 s)
  let ?R = "py_replace [60, 47] [60, 92, 47]"
  show ?case
  proof (cases "prefix [60, 47] s")
    case True
    then obtain r where s: "s = 60 # 47 # r" by (auto simp: prefix_def)
    have ih: "\<not> has_close (?R r)" using 1 s by simp
    have R: "?R s = [60, 92, 47] @ ?R r" using s by (simp add: py_replace_hit)
    show ?thesis
    proof (cases "?R r")
      case Nil
      then show ?thesis using R by simp
    next
      case (Cons x xs)
      then show ?thesis using R ih by simp
    qed
  next
    case False
    show ?thesis
    proof (cases s)
      case Nil
      then show ?thesis by (simp add: py_replace_Nil)
    next
      case (Cons c cs)
      have ih: "\<not> has_close (?R cs)" using 1 Cons by simp
      have R: "?R s = c # ?R cs" using False Cons by (simp add: py_replace_miss)
      show ?thesis
      proof (cases cs)
        case Nil
        then show ?thesis using R by (simp add: py_replace_Nil)
      next
        case (Cons d ds)
        then have "hd (?R cs) = d" "?R cs \<noteq> []" using escape_first[of cs] escape_hd[of cs] by auto
        then obtain xs where "?R cs = d # xs" by (cases "?R cs") auto
        moreover have "\<not> (c = 60 \<and> d = 47)" using False \<open>s = c # cs\<close> Cons by (auto simp: prefix_def)
        ultimately show ?thesis using R ih by auto
      qed
    qed
  qed
qed

lemma lit_close: "lit ''</'' = [60, 47]" by (simp add: lit_def)

lemma tasks_json_safe: "\<not> sublist (lit ''</'') (tasks_json d)"
  unfolding tasks_json_def lit_close using escape_no_close has_close_sublist by blast

lemma strip_empty_iff: "strip s = [] \<longleftrightarrow> (\<forall>c\<in>set s. py_isspace c)"
proof
  assume "strip s = []"
  then have "dropWhile py_isspace (rev (dropWhile py_isspace s)) = []"
    by (simp add: strip_def)
  then have "\<forall>c\<in>set (dropWhile py_isspace s). py_isspace c"
    by (simp add: dropWhile_eq_Nil_conv)
  moreover have "dropWhile py_isspace s = [] \<or> \<not> py_isspace (hd (dropWhile py_isspace s))"
    using hd_dropWhile by blast
  ultimately have "dropWhile py_isspace s = []"
    by (cases "dropWhile py_isspace s") auto
  then show "\<forall>c\<in>set s. py_isspace c" by (simp add: dropWhile_eq_Nil_conv)
next
  assume "\<forall>c\<in>set s. py_isspace c"
  then show "strip s = []"
    by (auto simp: strip_def dropWhile_eq_Nil_conv dest: set_dropWhileD)
qed

lemma lit_eq_iff [simp]: "lit a = lit b \<longleftrightarrow> a = b"
  by (simp add: lit_def inj_map_eq_map inj_def)

lemma Task_of_model_dump:
  "task_done t = JBool b \<Longrightarrow> Task_of (model_dump t) = Inr t"
  by (cases "task_due_date t")
     (simp_all add: Task_of_def model_dump_def Task_init_def validate_str_def validate_bool_def
        validate_opt_str_def)

lemma bool_doneE: "bool_done t \<Longrightarrow> \<exists>b. task_done t = JBool b"
  by (auto simp: bool_done_def split: json.splits)

lemma Task_list_dump:
  "list_all bool_done ts \<Longrightarrow> Task_list (map model_dump ts) = Inr ts"
  by (induction ts) (auto dest!: bool_doneE simp: Task_of_model_dump)

lemma read_write_store:
  "list_all bool_done ts \<Longrightarrow> read_store (write_store ts) = Inr ts"
  by (simp add: read_store_def write_store_def tasks_data_of_def py_iter_def Task_list_dump)

lemma Task_init_bool_done: "Task_init kw = Inr t \<Longrightarrow> bool_done t"
  by (auto simp: Task_init_def bool_done_def split: option.splits)

lemma Task_list_bool_done: "Task_list js = Inr ts \<Longrightarrow> list_all bool_done ts"
proof (induction js arbitrary: ts)
  case (Cons j js)
  then show ?case
    by (auto simp: Task_of_def split: sum.splits json.splits dest: Task_init_bool_done)
qed simp

lemma read_store_bool_done: "read_store file = Inr ts \<Longrightarrow> list_all bool_done ts"
  by (auto simp: read_store_def split: store_file.splits json.splits sum.splits
      dest: Task_list_bool_done)

subsection \<open>Rendering and the loop of \<open>mark_done\<close>\<close>

lemma py_format_keys:
  "map fst kw = map fst kw' \<Longrightarrow> isl (py_format kw st s) = isl (py_format kw' st s)"
proof (induction kw st s rule: py_format.induct)
  case (2 kw c cs)
  then show ?case by (auto split: list.splits simp: isl_map_sum)
next
  case (4 kw name c cs)
  have "(map_of kw name = None) = (map_of kw' name = None)"
    using 4(3) by (metis map_of_eq_None_iff set_map)
  with 4 show ?case by (auto split: option.splits simp: isl_map_sum)
qed simp_all

lemma starts_prefix: "starts P s \<longleftrightarrow> prefix P s"
  by (induction P s rule: starts.induct) auto

lemma contains_sublist: "contains P s \<longleftrightarrow> sublist P s"
  by (induction s) (auto simp: starts_prefix sublist_Cons_right)

lemma format_widget_default:
  "case format_widget (lit ''1'') of Inl x \<Rightarrow> False
   | Inr page \<Rightarrow> \<not> contains (lit ''{{TASKS_JSON}}'') page \<and> \<not> contains [123, 34] page \<and>
       contains (lit ''{TASKS_JSON}'') page"
  apply (simp add: format_widget_def TODO_WIDGET_HTML_def WIDGET_ASSET_ROUTE_def rstrip_def lit_def
      del: contains.simps starts.simps)
  apply (simp only: contains.simps starts.simps if_False if_True numeral_eq_iff num.inject
      num.distinct simp_thms list.simps cong: if_weak_cong)
  done

lemma format_widget_ok: "\<exists>page. format_widget ver = Inr page"
proof -
  have "isl (format_widget ver) = isl (format_widget (lit ''1''))"
    unfolding format_widget_def Let_def by (rule py_format_keys) simp
  moreover have "\<not> isl (format_widget (lit ''1''))"
    using format_widget_default by (cases "format_widget (lit ''1'')") auto
  ultimately show ?thesis by (cases "format_widget ver") auto
qed

lemma render_widget_html_ok: "\<exists>html. render_widget_html ver d = Inr html"
  using format_widget_ok[of ver] by (auto simp: render_widget_html_def Let_def)

lemma respond_ok:
  "\<exists>html. render_widget_html ver d = Inr html \<and> respond ver msg d file = (widget_result msg d html, file)"
  using render_widget_html_ok[of ver d] by (auto simp: respond_def)

lemma mark_loop_none:
  "\<not> snd (mark_loop tid d ts) \<longleftrightarrow> (\<forall>t\<in>set ts. JStr (task_id t) \<noteq> tid)"
  by (induction ts) (auto split: prod.splits)

lemma mark_loop_some:
  "snd (mark_loop tid d ts) \<Longrightarrow>
   \<exists>i<length ts. JStr (task_id (ts ! i)) = tid \<and> (\<forall>j<i. JStr (task_id (ts ! j)) \<noteq> tid) \<and>
     fst (mark_loop tid d ts) = ts[i := (ts ! i)\<lparr>task_done := d\<rparr>]"
proof (induction ts)
  case Nil
  then show ?case by simp
next
  case (Cons t ts)
  show ?case
  proof (cases "JStr (task_id t) = tid")
    case True
    then have "fst (mark_loop tid d (t # ts)) = (t # ts)[0 := ((t # ts) ! 0)\<lparr>task_done := d\<rparr>]"
      by simp
    with True show ?thesis by (intro exI[of _ 0]) simp
  next
    case False
    with Cons.prems have "snd (mark_loop tid d ts)" by (cases "mark_loop tid d ts") simp
    from Cons.IH[OF this] obtain i where i: "i < length ts" "JStr (task_id (ts ! i)) = tid"
      "\<forall>j<i. JStr (task_id (ts ! j)) \<noteq> tid"
      "fst (mark_loop tid d ts) = ts[i := (ts ! i)\<lparr>task_done := d\<rparr>]" by blast
    have "\<forall>j<Suc i. JStr (task_id ((t # ts) ! j)) \<noteq> tid"
      using False i(3) by (auto simp: nth_Cons split: nat.splits)
    moreover have "fst (mark_loop tid d (t # ts)) = (t # ts)[Suc i := ((t # ts) ! Suc i)\<lparr>task_done := d\<rparr>]"
      using False i(4) by (cases "mark_loop tid d ts") simp
    ultimately show ?thesis using i(1,2) by (intro exI[of _ "Suc i"]) simp
  qed
qed

lemma handle_add_task:
  "params_name req = lit ''add_task'' \<Longrightarrow>
   handle_call_tool ver e req file = add_task ver e (request_args req) file"
  by (simp add: handle_call_tool_def request_args_def)

lemma handle_mark_done:
  "params_name req = lit ''mark_done'' \<Longrightarrow>
   handle_call_tool ver e req file = mark_done ver (request_args req) file"
  by (simp add: handle_call_tool_def request_args_def)

lemma handle_get_tasks:
  "params_name req = lit ''get_tasks'' \<Longrightarrow> handle_call_tool ver e req file = get_tasks ver file"
  by (simp add: handle_call_tool_def)

subsection \<open>The tools\<close>

lemma Task_init_new:
  "Task_init [(lit ''id'', JStr u), (lit ''text'', JStr t), (lit ''done'', JBool False),
              (lit ''created_at'', JStr c), (lit ''due_date'', dv)] = Inr new \<Longrightarrow>
   task_id new = u \<and> task_text new = t \<and> task_done new = JBool False \<and> task_created_at new = c \<and>
   validate_opt_str dv = Some (task_due_date new)"
  by (auto simp: Task_init_def validate_str_def validate_bool_def split: option.splits)

lemma add_task_success:
  assumes "add_task ver e args file = (res, file')" and "\<not> isError res"
  shows "\<exists>s tasks new. map_of args (lit ''text'') = Some (JStr s) \<and> strip s \<noteq> [] \<and>
           read_store file = Inr tasks \<and>
           Task_init [(lit ''id'', JStr (uuid4 e)), (lit ''text'', JStr (strip s)),
                      (lit ''done'', JBool False), (lit ''created_at'', JStr (utcnow e @ lit ''Z'')),
                      (lit ''due_date'', arg_or_None args (lit ''due_date''))] = Inr new \<and>
           file' = write_store (tasks @ [new]) \<and>
           structuredContent res = Some (tasks_data_of (tasks @ [new])) \<and>
           content res = [Added_task (strip s)]"
proof -
  from assms obtain tx where t: "text_arg args = Inr tx"
    by (cases "text_arg args") (auto simp: add_task_def error_result_def)
  have ne: "tx \<noteq> []" using assms t by (auto simp: add_task_def error_result_def)
  from t ne obtain s where s: "map_of args (lit ''text'') = Some (JStr s)" "tx = strip s"
    by (auto simp: text_arg_def strip_def split: option.splits json.splits)
  from assms t ne obtain tasks where r: "read_store file = Inr tasks"
    by (cases "read_store file") (auto simp: add_task_def error_result_def)
  let ?kw = "[(lit ''id'', JStr (uuid4 e)), (lit ''text'', JStr tx),
              (lit ''done'', JBool False), (lit ''created_at'', JStr (utcnow e @ lit ''Z'')),
              (lit ''due_date'', arg_or_None args (lit ''due_date''))]"
  from assms t ne r obtain new where n: "Task_init ?kw = Inr new"
    by (cases "Task_init ?kw") (auto simp: add_task_def error_result_def)
  have tn: "task_text new = tx" using Task_init_new[OF n] by simp
  obtain html where "respond ver (Added_task tx) (tasks_data_of (tasks @ [new])) (write_store (tasks @ [new])) =
      (widget_result (Added_task tx) (tasks_data_of (tasks @ [new])) html, write_store (tasks @ [new]))"
    using respond_ok by blast
  with assms(1) t ne r n tn have "res = widget_result (Added_task tx) (tasks_data_of (tasks @ [new])) html"
    "file' = write_store (tasks @ [new])"
    by (auto simp: add_task_def Let_def)
  then show ?thesis using s r n ne by (auto simp: widget_result_def)
qed


lemma add_task_ok:
  assumes "map_of args (lit ''text'') = Some (JStr s)" and "strip s \<noteq> []"
    and "read_store file = Inr tasks"
    and "Task_init [(lit ''id'', JStr (uuid4 e)), (lit ''text'', JStr (strip s)),
                    (lit ''done'', JBool False), (lit ''created_at'', JStr (utcnow e @ lit ''Z'')),
                    (lit ''due_date'', arg_or_None args (lit ''due_date''))] = Inr new"
  shows "\<exists>html. add_task ver e args file =
           (widget_result (Added_task (task_text new)) (tasks_data_of (tasks @ [new])) html,
            write_store (tasks @ [new]))"
proof -
  have "text_arg args = Inr (strip s)" using assms(1) by (simp add: text_arg_def)
  moreover obtain html where
    "respond ver (Added_task (task_text new)) (tasks_data_of (tasks @ [new])) (write_store (tasks @ [new])) =
       (widget_result (Added_task (task_text new)) (tasks_data_of (tasks @ [new])) html,
        write_store (tasks @ [new]))"
    using respond_ok by blast
  ultimately show ?thesis using assms(2-4) by (auto simp: add_task_def Let_def)
qed

lemma first_match_unique:
  assumes "i < length ts" "P (ts ! i)" "\<forall>j<i. \<not> P (ts ! j)"
    and "k < length ts" "P (ts ! k)" "\<forall>j<k. \<not> P (ts ! j)"
  shows "i = k"
  using assms by (metis linorder_neqE_nat)

lemma mark_loop_first:
  assumes "i < length ts" "JStr (task_id (ts ! i)) = tid" "\<forall>j<i. JStr (task_id (ts ! j)) \<noteq> tid"
  shows "mark_loop tid d ts = (ts[i := (ts ! i)\<lparr>task_done := d\<rparr>], True)"
proof -
  have u: "snd (mark_loop tid d ts)"
    using assms(1,2) mark_loop_none[of tid d ts] by (metis nth_mem)
  from mark_loop_some[OF u] obtain k where k: "k < length ts" "JStr (task_id (ts ! k)) = tid"
    "\<forall>j<k. JStr (task_id (ts ! j)) \<noteq> tid"
    "fst (mark_loop tid d ts) = ts[k := (ts ! k)\<lparr>task_done := d\<rparr>]" by blast
  have "k = i"
    using first_match_unique[of k ts "\<lambda>t. JStr (task_id t) = tid" i] k(1-3) assms by blast
  then show ?thesis using k(4) u by (cases "mark_loop tid d ts") simp
qed

lemma mark_done_hit:
  assumes "read_store file = Inr tasks"
    and "i < length tasks" "JStr (task_id (tasks ! i)) = arg_or_None args (lit ''task_id'')"
    and "\<forall>j<i. JStr (task_id (tasks ! j)) \<noteq> arg_or_None args (lit ''task_id'')"
  shows "\<exists>html msg. mark_done ver args file =
           (widget_result msg (tasks_data_of (tasks[i := (tasks ! i)\<lparr>task_done := done_arg args\<rparr>])) html,
            write_store (tasks[i := (tasks ! i)\<lparr>task_done := done_arg args\<rparr>]))"
proof -
  let ?ts = "tasks[i := (tasks ! i)\<lparr>task_done := done_arg args\<rparr>]"
  let ?msg = "if truthy (done_arg args) then Task_completed else Task_reopened"
  have "mark_loop (arg_or_None args (lit ''task_id'')) (done_arg args) tasks = (?ts, True)"
    using assms(2-4) by (rule mark_loop_first)
  moreover obtain html where
    "respond ver ?msg (tasks_data_of ?ts) (write_store ?ts) = (widget_result ?msg (tasks_data_of ?ts) html, write_store ?ts)"
    using respond_ok by blast
  ultimately show ?thesis
    using assms(1) by (auto simp: mark_done_def Let_def done_arg_def)
qed

lemma mark_done_cases:
  assumes "mark_done ver args file = (res, file')"
  shows "(isError res \<and> file' = file) \<or>
         (\<exists>tasks i. read_store file = Inr tasks \<and> i < length tasks \<and>
            JStr (task_id (tasks ! i)) = arg_or_None args (lit ''task_id'') \<and>
            (\<forall>j<i. JStr (task_id (tasks ! j)) \<noteq> arg_or_None args (lit ''task_id'')) \<and>
            file' = write_store (tasks[i := (tasks ! i)\<lparr>task_done := done_arg args\<rparr>]) \<and>
            \<not> isError res \<and>
            structuredContent res = Some (tasks_data_of (tasks[i := (tasks ! i)\<lparr>task_done := done_arg args\<rparr>])))"
proof (cases "read_store file")
  case (Inl x)
  then show ?thesis using assms by (auto simp: mark_done_def Let_def error_result_def)
next
  case (Inr tasks)
  let ?tid = "arg_or_None args (lit ''task_id'')"
  show ?thesis
  proof (cases "snd (mark_loop ?tid (done_arg args) tasks)")
    case False
    then show ?thesis using assms Inr
      by (cases "mark_loop ?tid (done_arg args) tasks")
         (auto simp: mark_done_def Let_def error_result_def done_arg_def)
  next
    case True
    from mark_loop_some[OF True] obtain i where i: "i < length tasks" "JStr (task_id (tasks ! i)) = ?tid"
      "\<forall>j<i. JStr (task_id (tasks ! j)) \<noteq> ?tid" by blast
    from mark_done_hit[OF Inr i, of ver] assms
    show ?thesis using Inr i by (auto simp: widget_result_def)
  qed
qed

lemma list_all_bool_done_update:
  "list_all bool_done ts \<Longrightarrow> list_all bool_done (ts[i := (ts ! i)\<lparr>task_done := JBool b\<rparr>])"
  by (auto simp: list_all_iff bool_done_def dest!: set_update_subset_insert[THEN subsetD])


lemma read_store_empty: "read_store (Document (JDict [(lit ''tasks'', JList [])])) = Inr []"
  by (simp add: read_store_def py_iter_def)

subsection \<open>The data file after a call\<close>

lemma snd_respond: "snd (respond ver msg d file) = file"
  by (simp add: respond_def split: sum.splits)

lemma snd_get_tasks: "snd (get_tasks ver file) = file"
  by (simp add: get_tasks_def snd_respond split: sum.splits)

lemma snd_add_task:
  "snd (add_task ver e args file) =
     (case text_arg args of
        Inl x \<Rightarrow> file
      | Inr tx \<Rightarrow>
          if tx = [] then file
          else (case read_store file of
                  Inl x \<Rightarrow> file
                | Inr tasks \<Rightarrow>
                    (case Task_init [(lit ''id'', JStr (uuid4 e)), (lit ''text'', JStr tx),
                                     (lit ''done'', JBool False),
                                     (lit ''created_at'', JStr (utcnow e @ lit ''Z'')),
                                     (lit ''due_date'', arg_or_None args (lit ''due_date''))] of
                       Inl x \<Rightarrow> file
                     | Inr new_task \<Rightarrow> write_store (tasks @ [new_task]))))"
  by (simp add: add_task_def snd_respond Let_def split: sum.splits)

lemma snd_mark_done:
  "snd (mark_done ver args file) =
     (case read_store file of
        Inl x \<Rightarrow> file
      | Inr tasks \<Rightarrow>
          if snd (mark_loop (arg_or_None args (lit ''task_id'')) (done_arg args) tasks)
          then write_store (fst (mark_loop (arg_or_None args (lit ''task_id'')) (done_arg args) tasks))
          else file)"
  by (simp add: mark_done_def snd_respond Let_def split: sum.splits prod.splits)

lemma snd_handle_call_tool:
  "snd (handle_call_tool ver e req file) =
     (if params_name req = lit ''get_tasks'' then file
      else if params_name req = lit ''add_task'' then snd (add_task ver e (request_args req) file)
      else if params_name req = lit ''mark_done'' then snd (mark_done ver (request_args req) file)
      else file)"
  by (simp add: handle_call_tool_def snd_get_tasks)

lemma Task_of_model_dump_fields:
  "Task_of (model_dump t) = Inr t' \<Longrightarrow> task_id t' = task_id t \<and> task_text t' = task_text t"
  by (auto simp: Task_of_def model_dump_def Task_init_def validate_str_def split: option.splits)

lemma Task_list_dump_fields:
  "Task_list (map model_dump ts) = Inr ts' \<Longrightarrow>
   map task_id ts' = map task_id ts \<and> map task_text ts' = map task_text ts"
proof (induction ts arbitrary: ts')
  case Nil
  then show ?case by simp
next
  case (Cons t ts)
  then show ?case
    by (auto split: sum.splits dest: Task_of_model_dump_fields)
qed

lemma read_write_fields:
  "read_store (write_store ts) = Inr ts' \<Longrightarrow>
   map task_id ts' = map task_id ts \<and> map task_text ts' = map task_text ts"
  by (simp add: read_store_def write_store_def tasks_data_of_def py_iter_def Task_list_dump_fields)

lemma task_list_inv_maps:
  "task_list_inv ts \<longleftrightarrow> distinct (map task_id ts) \<and> [] \<notin> set (map task_text ts)"
  by (force simp: task_list_inv_def)

lemma store_inv_read:
  assumes "store_inv file" and "read_store file = Inr ts"
  shows "task_list_inv ts"
proof -
  from assms(1) obtain ts0 where "file = write_store ts0" "task_list_inv ts0"
    by (auto simp: store_inv_def)
  with assms(2) read_write_fields[of ts0 ts] show ?thesis
    by (simp add: task_list_inv_maps)
qed

lemma mark_loop_fields:
  "map task_id (fst (mark_loop tid d ts)) = map task_id ts \<and>
   map task_text (fst (mark_loop tid d ts)) = map task_text ts"
  by (induction ts) (auto split: prod.splits)

lemma store_inv_step:
  assumes "store_inv file" and "params_name req = lit ''add_task'' \<longrightarrow> fresh_uuid e file"
  shows "store_inv (snd (handle_call_tool ver e req file))"
proof -
  have add: "store_inv (snd (add_task ver e args file))" if fr: "fresh_uuid e file" for args
  proof (cases "read_store file")
    case (Inl x)
    then show ?thesis using assms(1) by (simp add: snd_add_task split: sum.splits)
  next
    case (Inr tasks)
    have inv: "task_list_inv tasks" using assms(1) Inr by (rule store_inv_read)
    have fresh: "uuid4 e \<notin> set (map task_id tasks)" using fr Inr by (simp add: fresh_uuid_def)
    have "task_list_inv (tasks @ [new])"
      if "tx \<noteq> []"
        and "Task_init [(lit ''id'', JStr (uuid4 e)), (lit ''text'', JStr tx), (lit ''done'', JBool False),
               (lit ''created_at'', JStr (utcnow e @ lit ''Z'')),
               (lit ''due_date'', arg_or_None args (lit ''due_date''))] = Inr new" for tx new
      using Task_init_new[OF that(2)] that(1) inv fresh by (auto simp: task_list_inv_def)
    then show ?thesis
      using assms(1) Inr by (auto simp: snd_add_task store_inv_def split: sum.splits)
  qed
  have mark: "store_inv (snd (mark_done ver args file))" for args
  proof (cases "read_store file")
    case (Inl x)
    then show ?thesis using assms(1) by (simp add: snd_mark_done)
  next
    case (Inr tasks)
    have inv: "task_list_inv tasks" using assms(1) Inr by (rule store_inv_read)
    then have "task_list_inv (fst (mark_loop tid d tasks))" for tid d
      using mark_loop_fields[of tid d tasks] by (simp add: task_list_inv_maps)
    then show ?thesis
      using assms(1) Inr by (auto simp: snd_mark_done store_inv_def)
  qed
  show ?thesis using assms add mark by (simp add: snd_handle_call_tool)
qed

lemma store_inv_run:
  "store_inv file \<Longrightarrow> fresh_draws ver calls file \<Longrightarrow> store_inv (run ver calls file)"
proof (induction calls arbitrary: "file")
  case Nil
  then show ?case by simp
next
  case (Cons c calls)
  obtain e req where c: "c = (e, req)" by (cases c)
  with Cons.prems have "store_inv (snd (handle_call_tool ver e req file))"
    by (auto intro: store_inv_step)
  with Cons c show ?case by simp
qed

lemma store_inv_init: "store_inv (module_init NoFile)"
proof -
  have "module_init NoFile = write_store []"
    by (simp add: module_init_def write_store_def tasks_data_of_def)
  moreover have "task_list_inv []" by (simp add: task_list_inv_def)
  ultimately show ?thesis unfolding store_inv_def by blast
qed

subsection \<open>Reading the data file\<close>

lemma Task_list_fails:
  "r \<in> set rs \<Longrightarrow> isl (Task_of r) \<Longrightarrow> isl (Task_list rs)"
  by (induction rs) (auto split: sum.splits)

lemma Task_of_not_dict: "\<forall>kw. r \<noteq> JDict kw \<Longrightarrow> isl (Task_of r)"
  by (cases r) (simp_all add: Task_of_def)

lemma Task_init_required:
  assumes "k \<in> {lit ''id'', lit ''text'', lit ''created_at''}" and "\<forall>s. map_of kw k \<noteq> Some (JStr s)"
  shows "Task_init kw = Inl ValidationError"
proof -
  have "Option.bind (map_of kw k) validate_str = None"
    using assms(2) by (cases "map_of kw k") (auto simp: validate_str_def split: json.splits)
  then show ?thesis
    using assms(1) by (auto simp: Task_init_def split: option.splits)
qed

lemma Task_init_bad_done:
  assumes "map_of kw (lit ''done'') = Some d" and "validate_bool d = None"
  shows "Task_init kw = Inl ValidationError"
  using assms by (auto simp: Task_init_def split: option.splits)

lemma Task_init_bad_due_date:
  assumes "map_of kw (lit ''due_date'') = Some d" and "d \<noteq> JNull" and "\<forall>s. d \<noteq> JStr s"
  shows "Task_init kw = Inl ValidationError"
proof -
  have "validate_opt_str d = None"
    using assms(2,3) by (cases d) (simp_all add: validate_opt_str_def)
  then show ?thesis
    using assms(1) by (auto simp: Task_init_def split: option.splits)
qed

subsection \<open>The widget of a result\<close>

lemma respond_meta:
  assumes "respond ver msg d f = (res, f')" and "meta res = Some html"
  shows "structuredContent res = Some d \<and> render_widget_html ver d = Inr html"
  using assms by (auto simp: respond_def widget_result_def error_result_def split: sum.splits)

lemma handle_call_tool_shape:
  "(\<exists>msg. fst (handle_call_tool ver e req file) = error_result msg) \<or>
   (\<exists>msg d f. handle_call_tool ver e req file = respond ver msg d f)"
proof -
  have g: "(\<exists>msg. fst (get_tasks ver file) = error_result msg) \<or>
           (\<exists>msg d f. get_tasks ver file = respond ver msg d f)"
    by (cases "read_store file") (auto simp: get_tasks_def)
  have a: "(\<exists>msg. fst (add_task ver e args file) = error_result msg) \<or>
           (\<exists>msg d f. add_task ver e args file = respond ver msg d f)" for args
    by (auto simp: add_task_def Let_def split: sum.splits)
  have m: "(\<exists>msg. fst (mark_done ver args file) = error_result msg) \<or>
           (\<exists>msg d f. mark_done ver args file = respond ver msg d f)" for args
    by (auto simp: mark_done_def Let_def split: sum.splits prod.splits)
  show ?thesis
    using g a m by (auto simp: handle_call_tool_def Let_def)
qed

lemma handle_call_tool_meta:
  assumes "handle_call_tool ver e req file = (res, file')" and "meta res = Some html"
  shows "\<exists>d. structuredContent res = Some d \<and> render_widget_html ver d = Inr html"
proof -
  from handle_call_tool_shape[of ver e req "file"]
  consider msg where "fst (handle_call_tool ver e req file) = error_result msg"
    | msg d f where "handle_call_tool ver e req file = respond ver msg d f" by blast
  then show ?thesis
  proof cases
    case 1
    with assms show ?thesis by (simp add: error_result_def)
  next
    case 2
    with assms respond_meta[of ver msg d f res file' html] show ?thesis by auto
  qed
qed

subsection \<open>The embedded JSON\<close>

lemma count_close_zero: "count_close s = 0 \<longleftrightarrow> \<not> has_close s"
  by (induction s rule: count_close.induct) auto

lemma count_close_Cons:
  "count_close (a # s) = (if s \<noteq> [] \<and> a = 60 \<and> hd s = 47 then 1 else 0) + count_close s"
  by (cases s) auto

lemma count_close_append:
  "count_close (xs @ ys) =
     count_close xs + count_close ys +
     (if xs \<noteq> [] \<and> ys \<noteq> [] \<and> last xs = 60 \<and> hd ys = 47 then 1 else 0)"
proof (induction xs)
  case Nil
  show ?case by simp
next
  case (Cons a xs)
  show ?case
  proof (cases xs)
    case Nil
    then show ?thesis by (simp add: count_close_Cons)
  next
    case (Cons b bs)
    with Cons.IH show ?thesis by (simp add: count_close_Cons[of a])
  qed
qed

lemma replace_keeps_count:
  assumes "P \<noteq> []" "J \<noteq> []" "count_close P = 0" "count_close J = 0"
    and "hd P \<noteq> 47" "hd J \<noteq> 47" "last P \<noteq> 60" "last J \<noteq> 60"
  shows "count_close (py_replace P J s) = count_close s \<and>
         (py_replace P J s = [] \<longleftrightarrow> s = []) \<and>
         (s \<noteq> [] \<longrightarrow> (hd (py_replace P J s) = 47 \<longleftrightarrow> hd s = 47))"
proof (induction s rule: length_induct)
  case (1 s)
  show ?case
  proof (cases "prefix P s")
    case True
    then obtain r where s: "s = P @ r" by (auto simp: prefix_def)
    have "length r < length s" using s assms(1) by simp
    with 1 have ih: "count_close (py_replace P J r) = count_close r" by blast
    have R: "py_replace P J (P @ r) = J @ py_replace P J r"
      using assms(1) by (simp add: py_replace_hit)
    show ?thesis
      unfolding s R using assms ih by (simp add: count_close_append)
  next
    case False
    show ?thesis
    proof (cases s)
      case Nil
      then show ?thesis using assms(1) by (simp add: py_replace_Nil)
    next
      case (Cons c cs)
      have ih: "count_close (py_replace P J cs) = count_close cs"
        "py_replace P J cs = [] \<longleftrightarrow> cs = []"
        "cs \<noteq> [] \<longrightarrow> (hd (py_replace P J cs) = 47 \<longleftrightarrow> hd cs = 47)"
        using 1 Cons by auto
      have R: "py_replace P J (c # cs) = c # py_replace P J cs"
        using False Cons assms(1) by (simp add: py_replace_miss)
      show ?thesis
        unfolding Cons R using ih by (auto simp: count_close_Cons)
    qed
  qed
qed

lemma decimal_digits: "decimal n \<noteq> [] \<and> set (decimal n) \<subseteq> {48..57}"
proof (induction n rule: decimal.induct)
  case (1 n)
  show ?case
  proof (cases "n < 10")
    case True
    then show ?thesis by (subst decimal.simps, subst (2) decimal.simps) auto
  next
    case False
    have "n mod 10 < 10" by simp
    then have "48 + n mod 10 \<in> {48..57}" by auto
    with False 1 show ?thesis by (subst decimal.simps, subst (2) decimal.simps) auto
  qed
qed

lemma decimal_ends: "hd (decimal n) \<noteq> 47 \<and> last (decimal n) \<noteq> 60"
proof -
  have "hd (decimal n) \<in> set (decimal n)" "last (decimal n) \<in> set (decimal n)"
    using decimal_digits[of n] by simp_all
  with decimal_digits[of n] have "hd (decimal n) \<in> {48..57}" "last (decimal n) \<in> {48..57}"
    by blast+
  then show ?thesis by auto
qed

lemma json_dumps_ends:
  "json_dumps d \<noteq> [] \<and> hd (json_dumps d) \<noteq> 47 \<and> last (json_dumps d) \<noteq> 60"
proof (cases d)
  case (JInt i)
  then show ?thesis
    using decimal_digits[of "nat i"] decimal_ends[of "nat i"]
      decimal_digits[of "nat (- i)"] decimal_ends[of "nat (- i)"]
    by auto
qed (simp_all add: lit_def dumps_str_def)

lemma escape_last:
  "s \<noteq> [] \<Longrightarrow> last (py_replace [60, 47] [60, 92, 47] s) = last s"
proof (induction s rule: length_induct)
  case (1 s)
  let ?R = "py_replace [60, 47] [60, 92, 47]"
  show ?case
  proof (cases "prefix [60, 47] s")
    case True
    then obtain r where s: "s = 60 # 47 # r" by (auto simp: prefix_def)
    have R: "?R (60 # 47 # r) = [60, 92, 47] @ ?R r" by (simp add: py_replace_hit)
    show ?thesis
    proof (cases r)
      case Nil
      then show ?thesis unfolding s R by (simp add: py_replace_Nil)
    next
      case (Cons x xs)
      then have "last (?R r) = last r" "?R r \<noteq> []" using 1 s escape_hd[of r] by auto
      then show ?thesis unfolding s R using Cons by simp
    qed
  next
    case False
    from 1(2) obtain c cs where s: "s = c # cs" by (cases s) auto
    have R: "?R (c # cs) = c # ?R cs" using False s by (simp add: py_replace_miss)
    show ?thesis
    proof (cases cs)
      case Nil
      then show ?thesis unfolding s R by (simp add: py_replace_Nil)
    next
      case (Cons x xs)
      then have "last (?R cs) = last cs" "?R cs \<noteq> []" using 1 s escape_hd[of cs] by auto
      then show ?thesis unfolding s R using Cons by simp
    qed
  qed
qed

lemma tasks_json_ends:
  "tasks_json d \<noteq> [] \<and> hd (tasks_json d) \<noteq> 47 \<and> last (tasks_json d) \<noteq> 60 \<and>
   count_close (tasks_json d) = 0"
  using json_dumps_ends[of d] escape_hd[of "json_dumps d"] escape_first[of "json_dumps d"]
    escape_last[of "json_dumps d"] escape_no_close[of "json_dumps d"]
  by (simp add: tasks_json_def lit_close count_close_zero)

lemma replace_absent:
  "P \<noteq> [] \<Longrightarrow> \<not> sublist P s \<Longrightarrow> py_replace P J s = s"
proof (induction s)
  case Nil
  then show ?case by (simp add: py_replace_Nil)
next
  case (Cons c cs)
  have "\<not> prefix P (c # cs)" using Cons.prems(2) by (auto dest: prefix_imp_sublist)
  moreover have "\<not> sublist P cs" using Cons.prems(2) by (auto simp: sublist_Cons_right)
  ultimately show ?case using Cons by (simp add: py_replace_miss)
qed

text \<open>
  With the default asset version \<open>"1"\<close> the second \<open>replace\<close> of \<open>_render_widget_html\<close>
  finds nothing: \<open>format\<close> has turned \<open>{{TASKS_JSON}}\<close> into \<open>{TASKS_JSON}\<close> before,
  and the page is returned as \<open>format\<close> left it.
\<close>

lemma render_default_version_keeps_placeholder:
  "render_widget_html (lit ''1'') d = format_widget (lit ''1'')"
proof -
  from format_widget_default obtain page where p: "format_widget (lit ''1'') = Inr page"
    "\<not> sublist (lit ''{{TASKS_JSON}}'') page"
    by (cases "format_widget (lit ''1'')") (auto simp: contains_sublist)
  have "lit ''{{TASKS_JSON}}'' \<noteq> []" by (simp add: lit_def)
  then show ?thesis using p by (simp add: render_widget_html_def replace_absent)
qed

text \<open>
  The JSON text of a non-empty dict begins with \<open>{"\<close>, and the page of the default
  asset version has no \<open>{"\<close>: the JSON of the payload is nowhere in it.
\<close>

lemma join_Cons: "join sep (y # ys) = y @ (if ys = [] then [] else sep @ join sep ys)"
  by (cases ys) simp_all

lemma tasks_json_dict_begins:
  "\<exists>rest. tasks_json (JDict ((k, v) # kvs)) = 123 # 34 # rest"
proof -
  obtain r where "json_dumps (JDict ((k, v) # kvs)) = 123 # 34 # r"
    by (simp add: join_Cons dumps_str_def)
  moreover have "py_replace [60, 47] [60, 92, 47] (123 # 34 # r) =
      123 # 34 # py_replace [60, 47] [60, 92, 47] r"
    by (simp add: py_replace_miss)
  ultimately show ?thesis by (simp add: tasks_json_def lit_close)
qed

lemma sublist_first_two: "sublist (a # b # xs) ys \<Longrightarrow> sublist [a, b] ys"
proof -
  assume "sublist (a # b # xs) ys"
  then obtain ps ss where "ys = ps @ (a # b # xs) @ ss" by (auto simp: sublist_def)
  then have "ys = ps @ [a, b] @ (xs @ ss)" by simp
  then show ?thesis unfolding sublist_def by blast
qed

lemma default_page_omits_json:
  assumes "render_widget_html (lit ''1'') (JDict ((k, v) # kvs)) = Inr page"
  shows "\<not> sublist (tasks_json (JDict ((k, v) # kvs))) page \<and> sublist (lit ''{TASKS_JSON}'') page"
proof -
  from assms have p: "format_widget (lit ''1'') = Inr page"
    by (simp add: render_default_version_keeps_placeholder)
  with format_widget_default have q: "\<not> sublist [123, 34] page" "sublist (lit ''{TASKS_JSON}'') page"
    by (simp_all add: contains_sublist)
  obtain rest where "tasks_json (JDict ((k, v) # kvs)) = 123 # 34 # rest"
    using tasks_json_dict_begins by blast
  with q(1) have "\<not> sublist (tasks_json (JDict ((k, v) # kvs))) page"
    by (auto dest: sublist_first_two)
  with q(2) show ?thesis by simp
qed

text \<open>
  What the renderer would embed is safe: \<open>tasks_json\<close> has no \<open></\<close>, and replacing the
  placeholder by it leaves the number of \<open></\<close> of the page as it is.
\<close>

lemma render_close_count:
  "\<not> sublist (lit ''</'') (tasks_json d) \<and>
   (\<exists>page html. format_widget ver = Inr page \<and> render_widget_html ver d = Inr html \<and>
      html = py_replace (lit ''{{TASKS_JSON}}'') (tasks_json d) page \<and>
      count_close html = count_close page)"
proof
  show "\<not> sublist (lit ''</'') (tasks_json d)" by (rule tasks_json_safe)
  obtain page where p: "format_widget ver = Inr page" using format_widget_ok by blast
  have P: "lit ''{{TASKS_JSON}}'' \<noteq> []" "count_close (lit ''{{TASKS_JSON}}'') = 0"
    "hd (lit ''{{TASKS_JSON}}'') \<noteq> 47" "last (lit ''{{TASKS_JSON}}'') \<noteq> 60"
    by (simp_all add: lit_def)
  have "count_close (py_replace (lit ''{{TASKS_JSON}}'') (tasks_json d) page) = count_close page"
    using replace_keeps_count[OF P(1) _ P(2) _ P(3) _ P(4), of "tasks_json d" page]
      tasks_json_ends[of d] by simp
  with p show "\<exists>page html. format_widget ver = Inr page \<and> render_widget_html ver d = Inr html \<and>
      html = py_replace (lit ''{{TASKS_JSON}}'') (tasks_json d) page \<and>
      count_close html = count_close page"
    by (simp add: render_widget_html_def)
qed

section \<open>The claims\<close>

text \<open>
  Claim C1, as the code has it. The id of the new task is the string that \<open>uuid4\<close>
  returns, and \<open>add_task\<close> does not compare it with the stored ids: when \<open>uuid4\<close>
  returns the id of a stored task, the call succeeds and the list holds two tasks with
  that id.
\<close>

theorem add_task_reuses_stored_id:
  "\<not> isError (fst (handle_call_tool (lit ''1'')
       \<lparr>uuid4 = lit ''u1'', utcnow = lit ''2024-01-02T00:00:00''\<rparr>
       \<lparr>params_name = lit ''add_task'', params_arguments = Some [(lit ''text'', JStr (lit ''Walk''))]\<rparr>
       (write_store [\<lparr>task_id = lit ''u1'', task_text = lit ''Buy milk'', task_done = JBool False,
          task_created_at = lit ''2024-01-01T00:00:00Z'', task_due_date = None\<rparr>]))) \<and>
   read_store (snd (handle_call_tool (lit ''1'')
       \<lparr>uuid4 = lit ''u1'', utcnow = lit ''2024-01-02T00:00:00''\<rparr>
       \<lparr>params_name = lit ''add_task'', params_arguments = Some [(lit ''text'', JStr (lit ''Walk''))]\<rparr>
       (write_store [\<lparr>task_id = lit ''u1'', task_text = lit ''Buy milk'', task_done = JBool False,
          task_created_at = lit ''2024-01-01T00:00:00Z'', task_due_date = None\<rparr>]))) =
   Inr [\<lparr>task_id = lit ''u1'', task_text = lit ''Buy milk'', task_done = JBool False,
          task_created_at = lit ''2024-01-01T00:00:00Z'', task_due_date = None\<rparr>,
        \<lparr>task_id = lit ''u1'', task_text = lit ''Walk'', task_done = JBool False,
          task_created_at = lit ''2024-01-02T00:00:00Z'', task_due_date = None\<rparr>]"
proof -
  let ?e = "\<lparr>uuid4 = lit ''u1'', utcnow = lit ''2024-01-02T00:00:00''\<rparr>"
  let ?args = "[(lit ''text'', JStr (lit ''Walk''))]"
  let ?req = "\<lparr>params_name = lit ''add_task'', params_arguments = Some ?args\<rparr>"
  let ?old = "\<lparr>task_id = lit ''u1'', task_text = lit ''Buy milk'', task_done = JBool False,
          task_created_at = lit ''2024-01-01T00:00:00Z'', task_due_date = None\<rparr>"
  let ?new = "\<lparr>task_id = lit ''u1'', task_text = lit ''Walk'', task_done = JBool False,
          task_created_at = lit ''2024-01-02T00:00:00Z'', task_due_date = None\<rparr>"
  have st: "strip (lit ''Walk'') = lit ''Walk''"
    by (simp add: strip_def lit_def py_isspace_def)
  have ne: "strip (lit ''Walk'') \<noteq> []" by (simp add: st) (simp add: lit_def)
  have r: "read_store (write_store [?old]) = Inr [?old]"
    by (rule read_write_store) (simp add: bool_done_def)
  have ti: "Task_init [(lit ''id'', JStr (uuid4 ?e)), (lit ''text'', JStr (strip (lit ''Walk''))),
                    (lit ''done'', JBool False), (lit ''created_at'', JStr (utcnow ?e @ lit ''Z'')),
                    (lit ''due_date'', arg_or_None ?args (lit ''due_date''))] = Inr ?new"
    by (simp add: st Task_init_def validate_str_def validate_bool_def validate_opt_str_def
        arg_or_None_def) (simp add: lit_def)
  have "map_of ?args (lit ''text'') = Some (JStr (lit ''Walk''))" by simp
  from add_task_ok[OF this ne r ti, of "lit ''1''"]
  obtain html where "handle_call_tool (lit ''1'') ?e ?req (write_store [?old]) =
      (widget_result (Added_task (task_text ?new)) (tasks_data_of ([?old] @ [?new])) html,
       write_store ([?old] @ [?new]))"
    by (auto simp: handle_add_task request_args_def)
  moreover have "read_store (write_store ([?old] @ [?new])) = Inr ([?old] @ [?new])"
    by (rule read_write_store) (simp add: bool_done_def)
  ultimately show ?thesis by (simp add: widget_result_def)
qed

text \<open>
  Claim C1, amended. When the \<open>text\<close> argument of \<open>add_task\<close> is a string that is not
  empty after trimming and the call succeeds, the store could be read before the call,
  and the data file after the call holds the list from before with one task appended:
  its \<open>done\<close> is false, its text is the trimmed input, its id is the string that
  \<open>uuid4\<close> returns in this call, which is the id of no task stored before whenever
  \<open>uuid4\<close> returns a string that no stored task has as its id. The tasks stored before
  keep their values and their order, the list is one longer, and the same list is the
  structured payload of the result.
\<close>

theorem add_task_appends:
  assumes "params_name req = lit ''add_task''"
    and "map_of (request_args req) (lit ''text'') = Some (JStr s)"
    and "strip s \<noteq> []"
    and "handle_call_tool ver e req file = (res, file')"
    and "\<not> isError res"
  shows "\<exists>tasks new. read_store file = Inr tasks \<and>
           task_id new = uuid4 e \<and> task_text new = strip s \<and> task_done new = JBool False \<and>
           task_created_at new = utcnow e @ lit ''Z'' \<and>
           validate_opt_str (arg_or_None (request_args req) (lit ''due_date'')) = Some (task_due_date new) \<and>
           file' = write_store (tasks @ [new]) \<and>
           read_store file' = Inr (tasks @ [new]) \<and>
           length (tasks @ [new]) = length tasks + 1 \<and>
           structuredContent res = Some (tasks_data_of (tasks @ [new])) \<and>
           (uuid4 e \<notin> set (map task_id tasks) \<longrightarrow> task_id new \<notin> set (map task_id tasks))"
proof -
  have "add_task ver e (request_args req) file = (res, file')"
    using assms(1,4) by (simp add: handle_add_task)
  from add_task_success[OF this assms(5)] assms(2)
  obtain tasks new where a: "read_store file = Inr tasks"
    "Task_init [(lit ''id'', JStr (uuid4 e)), (lit ''text'', JStr (strip s)),
                (lit ''done'', JBool False), (lit ''created_at'', JStr (utcnow e @ lit ''Z'')),
                (lit ''due_date'', arg_or_None (request_args req) (lit ''due_date''))] = Inr new"
    "file' = write_store (tasks @ [new])"
    "structuredContent res = Some (tasks_data_of (tasks @ [new]))"
    by auto
  have "list_all bool_done (tasks @ [new])"
    using read_store_bool_done[OF a(1)] Task_init_bool_done[OF a(2)] by simp
  then have "read_store file' = Inr (tasks @ [new])"
    using a(3) by (simp add: read_write_store)
  then show ?thesis using a Task_init_new[OF a(2)] by auto
qed

theorem add_task_appends_witness:
  "read_store (snd (handle_call_tool (lit ''1'')
       \<lparr>uuid4 = lit ''u2'', utcnow = lit ''2024-01-02T00:00:00''\<rparr>
       \<lparr>params_name = lit ''add_task'', params_arguments = Some [(lit ''text'', JStr (lit '' Walk ''))]\<rparr>
       (write_store [\<lparr>task_id = lit ''u1'', task_text = lit ''Buy milk'', task_done = JBool True,
          task_created_at = lit ''2024-01-01T00:00:00Z'', task_due_date = None\<rparr>]))) =
   Inr [\<lparr>task_id = lit ''u1'', task_text = lit ''Buy milk'', task_done = JBool True,
          task_created_at = lit ''2024-01-01T00:00:00Z'', task_due_date = None\<rparr>,
        \<lparr>task_id = lit ''u2'', task_text = lit ''Walk'', task_done = JBool False,
          task_created_at = lit ''2024-01-02T00:00:00Z'', task_due_date = None\<rparr>] \<and>
   lit ''u2'' \<notin> set (map task_id
        [\<lparr>task_id = lit ''u1'', task_text = lit ''Buy milk'', task_done = JBool True,
          task_created_at = lit ''2024-01-01T00:00:00Z'', task_due_date = None\<rparr>])"
proof -
  let ?e = "\<lparr>uuid4 = lit ''u2'', utcnow = lit ''2024-01-02T00:00:00''\<rparr>"
  let ?args = "[(lit ''text'', JStr (lit '' Walk ''))]"
  let ?req = "\<lparr>params_name = lit ''add_task'', params_arguments = Some ?args\<rparr>"
  let ?old = "\<lparr>task_id = lit ''u1'', task_text = lit ''Buy milk'', task_done = JBool True,
          task_created_at = lit ''2024-01-01T00:00:00Z'', task_due_date = None\<rparr>"
  let ?file = "write_store [?old]"
  let ?new = "\<lparr>task_id = lit ''u2'', task_text = lit ''Walk'', task_done = JBool False,
         task_created_at = lit ''2024-01-02T00:00:00Z'', task_due_date = None\<rparr>"
  have st: "strip (lit '' Walk '') = lit ''Walk''"
    by (simp add: strip_def lit_def py_isspace_def)
  have r: "read_store ?file = Inr [?old]"
    by (rule read_write_store) (simp add: bool_done_def)
  have h1: "params_name ?req = lit ''add_task''" by simp
  have h2: "map_of (request_args ?req) (lit ''text'') = Some (JStr (lit '' Walk ''))"
    by (simp add: request_args_def)
  have h3: "strip (lit '' Walk '') \<noteq> []" by (simp add: st) (simp add: lit_def)
  have ti: "Task_init [(lit ''id'', JStr (uuid4 ?e)), (lit ''text'', JStr (strip (lit '' Walk ''))),
                    (lit ''done'', JBool False), (lit ''created_at'', JStr (utcnow ?e @ lit ''Z'')),
                    (lit ''due_date'', arg_or_None ?args (lit ''due_date''))] = Inr ?new"
    by (simp add: st Task_init_def validate_str_def validate_bool_def validate_opt_str_def
        arg_or_None_def) (simp add: lit_def)
  have "map_of ?args (lit ''text'') = Some (JStr (lit '' Walk ''))" by simp
  from add_task_ok[OF this h3 r ti, of "lit ''1''"]
  have h5: "\<not> isError (fst (handle_call_tool (lit ''1'') ?e ?req ?file))"
    by (auto simp: handle_add_task request_args_def widget_result_def)
  have h4: "handle_call_tool (lit ''1'') ?e ?req ?file =
     (fst (handle_call_tool (lit ''1'') ?e ?req ?file), snd (handle_call_tool (lit ''1'') ?e ?req ?file))"
    by simp
  from add_task_appends[OF h1 h2 h3 h4 h5] obtain tasks new where
    a: "read_store ?file = Inr tasks" "task_id new = uuid4 ?e" "task_text new = strip (lit '' Walk '')"
      "task_done new = JBool False" "task_created_at new = utcnow ?e @ lit ''Z''"
      "validate_opt_str (arg_or_None (request_args ?req) (lit ''due_date'')) = Some (task_due_date new)"
      "read_store (snd (handle_call_tool (lit ''1'') ?e ?req ?file)) = Inr (tasks @ [new])"
      "uuid4 ?e \<notin> set (map task_id tasks) \<longrightarrow> task_id new \<notin> set (map task_id tasks)"
    by blast
  have t: "tasks = [?old]" using a(1) r by simp
  have fresh: "uuid4 ?e \<notin> set (map task_id tasks)" unfolding t by (simp add: lit_def)
  have "new = ?new"
    using a(2-6) by (simp add: st arg_or_None_def request_args_def validate_opt_str_def) (simp add: lit_def)
  with a(7,8) t fresh show ?thesis by simp
qed

text \<open>
  Claim C2. When the \<open>text\<close> argument of \<open>add_task\<close> is missing, empty or made of
  whitespace only, the call returns an error-flagged result that carries one text block
  and neither a structured payload nor \<open>_meta\<close>, and the data file is the one from
  before the call.
\<close>

theorem add_task_blank_text_rejected:
  assumes "params_name req = lit ''add_task''"
    and "map_of (request_args req) (lit ''text'') = None \<or>
         (\<exists>s. map_of (request_args req) (lit ''text'') = Some (JStr s) \<and> (\<forall>c\<in>set s. py_isspace c))"
  shows "handle_call_tool ver e req file =
           (\<lparr>content = [Error_Task_text_cannot_be_empty], structuredContent = None,
             isError = True, meta = None\<rparr>, file)"
proof -
  have "text_arg (request_args req) = Inr []"
    using assms(2) by (auto simp: text_arg_def strip_empty_iff)
  then show ?thesis
    using assms(1) by (simp add: handle_add_task add_task_def error_result_def)
qed

theorem add_task_blank_text_rejected_witness:
  "handle_call_tool (lit ''1'') \<lparr>uuid4 = lit ''u1'', utcnow = lit ''2024-01-01T00:00:00''\<rparr>
     \<lparr>params_name = lit ''add_task'', params_arguments = Some [(lit ''text'', JStr [32, 9, 160])]\<rparr>
     (Document (JDict [(lit ''tasks'', JList [])])) =
   (\<lparr>content = [Error_Task_text_cannot_be_empty], structuredContent = None,
     isError = True, meta = None\<rparr>, Document (JDict [(lit ''tasks'', JList [])]))"
  by (rule add_task_blank_text_rejected) (simp_all add: request_args_def py_isspace_def)


text \<open>
  Claim C3. When \<open>task_id\<close> (\<open>None\<close> when the argument is missing) equals the id of
  no stored task, \<open>mark_done\<close> returns an error-flagged result that carries one text
  block and neither a structured payload nor \<open>_meta\<close>, and the data file is the one from
  before the call. When the store can be read the text is the not-found message for
  that \<open>task_id\<close>.
\<close>

theorem mark_done_unknown_id_rejected:
  assumes "params_name req = lit ''mark_done''"
    and "tid = arg_or_None (request_args req) (lit ''task_id'')"
    and "\<forall>ts. read_store file = Inr ts \<longrightarrow> (\<forall>t\<in>set ts. JStr (task_id t) \<noteq> tid)"
  shows "\<exists>msg. handle_call_tool ver e req file =
           (\<lparr>content = [msg], structuredContent = None, isError = True, meta = None\<rparr>, file) \<and>
           (\<forall>ts. read_store file = Inr ts \<longrightarrow> msg = Error_Task_with_ID_not_found tid)"
proof (cases "read_store file")
  case (Inl x)
  then show ?thesis
    using assms(1) by (simp add: handle_mark_done mark_done_def error_result_def Let_def)
next
  case (Inr ts)
  let ?d = "done_arg (request_args req)"
  have "\<not> snd (mark_loop tid ?d ts)"
    using assms(3) Inr by (simp add: mark_loop_none)
  then show ?thesis
    using assms(1,2) Inr
    by (cases "mark_loop tid ?d ts") (simp add: handle_mark_done mark_done_def error_result_def Let_def)
qed

theorem mark_done_unknown_id_rejected_witness:
  "handle_call_tool (lit ''1'') \<lparr>uuid4 = lit ''u1'', utcnow = lit ''2024-01-01T00:00:00''\<rparr>
     \<lparr>params_name = lit ''mark_done'',
      params_arguments = Some [(lit ''task_id'', JStr (lit ''nonexistent''))]\<rparr>
     (write_store [\<lparr>task_id = lit ''a'', task_text = lit ''Buy milk'', task_done = JBool False,
        task_created_at = lit ''2024-01-01T00:00:00Z'', task_due_date = None\<rparr>]) =
   (\<lparr>content = [Error_Task_with_ID_not_found (JStr (lit ''nonexistent''))],
     structuredContent = None, isError = True, meta = None\<rparr>,
    write_store [\<lparr>task_id = lit ''a'', task_text = lit ''Buy milk'', task_done = JBool False,
        task_created_at = lit ''2024-01-01T00:00:00Z'', task_due_date = None\<rparr>])"
proof -
  let ?t = "\<lparr>task_id = lit ''a'', task_text = lit ''Buy milk'', task_done = JBool False,
        task_created_at = lit ''2024-01-01T00:00:00Z'', task_due_date = None\<rparr>"
  let ?req = "\<lparr>params_name = lit ''mark_done'',
      params_arguments = Some [(lit ''task_id'', JStr (lit ''nonexistent''))]\<rparr>"
  have r: "read_store (write_store [?t]) = Inr [?t]"
    by (rule read_write_store) (simp add: bool_done_def)
  have h1: "params_name ?req = lit ''mark_done''" by simp
  have h2: "JStr (lit ''nonexistent'') = arg_or_None (request_args ?req) (lit ''task_id'')"
    by (simp add: request_args_def arg_or_None_def)
  have h3: "\<forall>ts. read_store (write_store [?t]) = Inr ts \<longrightarrow>
              (\<forall>t\<in>set ts. JStr (task_id t) \<noteq> JStr (lit ''nonexistent''))"
    by (simp add: r)
  from mark_done_unknown_id_rejected[OF h1 h2 h3] r show ?thesis by auto
qed


text \<open>
  Claim C4. For the id of a task in the stored list, \<open>mark_done\<close> with \<open>done = true\<close>
  and then with \<open>done = false\<close> leaves a store in which the first task with that id has
  \<open>done = false\<close> and every other field of it, and every other task, is as before
  the two calls. When the ids are distinct, that first task is the task the id was
  taken from.
\<close>

theorem mark_done_round_trip:
  assumes "read_store file = Inr tasks" and "k < length tasks" and "tid = task_id (tasks ! k)"
    and "params_name req1 = lit ''mark_done''"
    and "map_of (request_args req1) (lit ''task_id'') = Some (JStr tid)"
    and "map_of (request_args req1) (lit ''done'') = Some (JBool True)"
    and "params_name req2 = lit ''mark_done''"
    and "map_of (request_args req2) (lit ''task_id'') = Some (JStr tid)"
    and "map_of (request_args req2) (lit ''done'') = Some (JBool False)"
    and "file1 = snd (handle_call_tool ver e1 req1 file)"
    and "file2 = snd (handle_call_tool ver e2 req2 file1)"
  shows "\<exists>i. i < length tasks \<and> task_id (tasks ! i) = tid \<and> (\<forall>j<i. task_id (tasks ! j) \<noteq> tid) \<and>
           read_store file1 = Inr (tasks[i := (tasks ! i)\<lparr>task_done := JBool True\<rparr>]) \<and>
           read_store file2 = Inr (tasks[i := (tasks ! i)\<lparr>task_done := JBool False\<rparr>]) \<and>
           (distinct (map task_id tasks) \<longrightarrow> i = k)"
proof -
  let ?a1 = "request_args req1" and ?a2 = "request_args req2"
  have t1: "arg_or_None ?a1 (lit ''task_id'') = JStr tid" and d1: "done_arg ?a1 = JBool True"
    and t2: "arg_or_None ?a2 (lit ''task_id'') = JStr tid" and d2: "done_arg ?a2 = JBool False"
    using assms(5,6,8,9) by (simp_all add: arg_or_None_def done_arg_def)
  have "snd (mark_loop (JStr tid) (JBool True) tasks)"
    using assms(2,3) mark_loop_none[of "JStr tid" "JBool True" tasks] by (metis nth_mem)
  from mark_loop_some[OF this] obtain i where i: "i < length tasks" "task_id (tasks ! i) = tid"
    "\<forall>j<i. task_id (tasks ! j) \<noteq> tid" by auto
  let ?ts1 = "tasks[i := (tasks ! i)\<lparr>task_done := JBool True\<rparr>]"
  let ?ts2 = "tasks[i := (tasks ! i)\<lparr>task_done := JBool False\<rparr>]"
  have bd: "list_all bool_done tasks" using assms(1) by (rule read_store_bool_done)
  have "snd (mark_done ver ?a1 file) = write_store ?ts1"
    using mark_done_hit[OF assms(1) i(1), of ?a1 ver] i(2,3) t1 d1 by auto
  then have f1: "file1 = write_store ?ts1"
    using assms(4,10) by (simp add: handle_mark_done)
  have r1: "read_store file1 = Inr ?ts1"
    unfolding f1 by (rule read_write_store) (rule list_all_bool_done_update[OF bd])
  have i1: "i < length ?ts1" "JStr (task_id (?ts1 ! i)) = arg_or_None ?a2 (lit ''task_id'')"
    "\<forall>j<i. JStr (task_id (?ts1 ! j)) \<noteq> arg_or_None ?a2 (lit ''task_id'')"
    using i t2 by (simp_all add: nth_list_update)
  have "snd (mark_done ver ?a2 file1) =
          write_store (?ts1[i := (?ts1 ! i)\<lparr>task_done := done_arg ?a2\<rparr>])"
    using mark_done_hit[OF r1 i1, of ver] by auto
  moreover have "?ts1[i := (?ts1 ! i)\<lparr>task_done := done_arg ?a2\<rparr>] = ?ts2"
    using i(1) d2 by simp
  ultimately have f2: "file2 = write_store ?ts2"
    using assms(7,11) by (simp add: handle_mark_done)
  have r2: "read_store file2 = Inr ?ts2"
    unfolding f2 by (rule read_write_store) (rule list_all_bool_done_update[OF bd])
  have "distinct (map task_id tasks) \<longrightarrow> i = k"
  proof
    assume "distinct (map task_id tasks)"
    moreover have "map task_id tasks ! i = map task_id tasks ! k"
      using i(1,2) assms(2,3) by (simp only: nth_map)
    ultimately show "i = k"
      using i(1) assms(2) nth_eq_iff_index_eq[of "map task_id tasks" i k] by simp
  qed
  with i r1 r2 show ?thesis by blast
qed

theorem mark_done_round_trip_witness:
  "read_store (snd (handle_call_tool (lit ''1'') \<lparr>uuid4 = lit ''u2'', utcnow = lit ''t2''\<rparr>
       \<lparr>params_name = lit ''mark_done'',
        params_arguments = Some [(lit ''task_id'', JStr (lit ''a'')), (lit ''done'', JBool False)]\<rparr>
       (snd (handle_call_tool (lit ''1'') \<lparr>uuid4 = lit ''u1'', utcnow = lit ''t1''\<rparr>
          \<lparr>params_name = lit ''mark_done'',
           params_arguments = Some [(lit ''task_id'', JStr (lit ''a'')), (lit ''done'', JBool True)]\<rparr>
          (write_store [\<lparr>task_id = lit ''a'', task_text = lit ''Buy milk'', task_done = JBool False,
             task_created_at = lit ''2024-01-01T00:00:00Z'', task_due_date = Some (lit ''2024-02-01'')\<rparr>]))))) =
   Inr [\<lparr>task_id = lit ''a'', task_text = lit ''Buy milk'', task_done = JBool False,
          task_created_at = lit ''2024-01-01T00:00:00Z'', task_due_date = Some (lit ''2024-02-01'')\<rparr>]"
proof -
  let ?t = "\<lparr>task_id = lit ''a'', task_text = lit ''Buy milk'', task_done = JBool False,
             task_created_at = lit ''2024-01-01T00:00:00Z'', task_due_date = Some (lit ''2024-02-01'')\<rparr>"
  let ?req1 = "\<lparr>params_name = lit ''mark_done'',
           params_arguments = Some [(lit ''task_id'', JStr (lit ''a'')), (lit ''done'', JBool True)]\<rparr>"
  let ?req2 = "\<lparr>params_name = lit ''mark_done'',
        params_arguments = Some [(lit ''task_id'', JStr (lit ''a'')), (lit ''done'', JBool False)]\<rparr>"
  have r: "read_store (write_store [?t]) = Inr [?t]"
    by (rule read_write_store) (simp add: bool_done_def)
  have k: "0 < length [?t]" by simp
  have i: "lit ''a'' = task_id ([?t] ! 0)" by simp
  have a: "params_name ?req1 = lit ''mark_done''"
    "map_of (request_args ?req1) (lit ''task_id'') = Some (JStr (lit ''a''))"
    "map_of (request_args ?req1) (lit ''done'') = Some (JBool True)"
    "params_name ?req2 = lit ''mark_done''"
    "map_of (request_args ?req2) (lit ''task_id'') = Some (JStr (lit ''a''))"
    "map_of (request_args ?req2) (lit ''done'') = Some (JBool False)"
    by (simp_all add: request_args_def)
  from mark_done_round_trip[OF r k i a refl refl]
  obtain n where n: "n < length [?t]"
    "read_store (snd (handle_call_tool (lit ''1'') \<lparr>uuid4 = lit ''u2'', utcnow = lit ''t2''\<rparr> ?req2
       (snd (handle_call_tool (lit ''1'') \<lparr>uuid4 = lit ''u1'', utcnow = lit ''t1''\<rparr> ?req1
          (write_store [?t]))))) = Inr ([?t][n := ([?t] ! n)\<lparr>task_done := JBool False\<rparr>])"
    by blast
  from n(1) have "n = 0" by simp
  with n(2) show ?thesis by simp
qed

text \<open>
  Claim C5, as the code has it. \<open>add_task\<close> does not compare the id it draws with the
  stored ids: from a list with the invariant, a call in which \<open>uuid4\<close> returns the id of
  a stored task leads to a list with two tasks of that id.
\<close>

theorem add_task_breaks_distinct_ids:
  "task_list_inv [\<lparr>task_id = lit ''a'', task_text = lit ''x'', task_done = JBool False,
      task_created_at = lit ''c1'', task_due_date = None\<rparr>] \<and>
   read_store (write_store [\<lparr>task_id = lit ''a'', task_text = lit ''x'', task_done = JBool False,
      task_created_at = lit ''c1'', task_due_date = None\<rparr>]) =
     Inr [\<lparr>task_id = lit ''a'', task_text = lit ''x'', task_done = JBool False,
      task_created_at = lit ''c1'', task_due_date = None\<rparr>] \<and>
   read_store (snd (handle_call_tool (lit ''1'') \<lparr>uuid4 = lit ''a'', utcnow = lit ''t2''\<rparr>
       \<lparr>params_name = lit ''add_task'', params_arguments = Some [(lit ''text'', JStr (lit ''y''))]\<rparr>
       (write_store [\<lparr>task_id = lit ''a'', task_text = lit ''x'', task_done = JBool False,
          task_created_at = lit ''c1'', task_due_date = None\<rparr>]))) =
     Inr [\<lparr>task_id = lit ''a'', task_text = lit ''x'', task_done = JBool False,
            task_created_at = lit ''c1'', task_due_date = None\<rparr>,
          \<lparr>task_id = lit ''a'', task_text = lit ''y'', task_done = JBool False,
            task_created_at = lit ''t2Z'', task_due_date = None\<rparr>] \<and>
   \<not> distinct (map task_id
      [\<lparr>task_id = lit ''a'', task_text = lit ''x'', task_done = JBool False,
         task_created_at = lit ''c1'', task_due_date = None\<rparr>,
       \<lparr>task_id = lit ''a'', task_text = lit ''y'', task_done = JBool False,
         task_created_at = lit ''t2Z'', task_due_date = None\<rparr>])"
proof -
  let ?e = "\<lparr>uuid4 = lit ''a'', utcnow = lit ''t2''\<rparr>"
  let ?args = "[(lit ''text'', JStr (lit ''y''))]"
  let ?old = "\<lparr>task_id = lit ''a'', task_text = lit ''x'', task_done = JBool False,
      task_created_at = lit ''c1'', task_due_date = None\<rparr>"
  let ?new = "\<lparr>task_id = lit ''a'', task_text = lit ''y'', task_done = JBool False,
      task_created_at = lit ''t2Z'', task_due_date = None\<rparr>"
  have st: "strip (lit ''y'') = lit ''y''" by (simp add: strip_def lit_def py_isspace_def)
  have ne: "lit ''y'' \<noteq> []" "lit ''x'' \<noteq> []" and z: "lit ''t2'' @ lit ''Z'' = lit ''t2Z''"
    by (simp_all add: lit_def)
  have r: "read_store (write_store [?old]) = Inr [?old]"
    by (rule read_write_store) (simp add: bool_done_def)
  have "snd (handle_call_tool (lit ''1'') ?e
          \<lparr>params_name = lit ''add_task'', params_arguments = Some ?args\<rparr> (write_store [?old])) =
        write_store [?old, ?new]"
    by (simp add: snd_handle_call_tool snd_add_task request_args_def text_arg_def st ne r
        Task_init_def validate_str_def validate_bool_def validate_opt_str_def arg_or_None_def z)
  moreover have "read_store (write_store [?old, ?new]) = Inr [?old, ?new]"
    by (rule read_write_store) (simp add: bool_done_def)
  moreover have "task_list_inv [?old]" by (simp add: task_list_inv_def ne)
  ultimately show ?thesis using r by simp
qed

text \<open>
  Claim C5, amended. The data file created on first run holds a list with the invariant
  (ids pairwise distinct, no empty text), and every sequence of calls of the handler,
  whatever the tools and arguments, leads from a data file with the invariant to one with
  the invariant, provided each \<open>add_task\<close> call of the sequence draws from \<open>uuid4\<close> a
  string that is the id of no stored task. In particular the list that \<open>_read_store\<close>
  then returns has distinct ids and no empty text.
\<close>

theorem task_list_invariant:
  "store_inv (module_init NoFile) \<and>
   (store_inv file \<and> fresh_draws ver calls file \<longrightarrow>
      store_inv (run ver calls file) \<and>
      (\<forall>ts. read_store (run ver calls file) = Inr ts \<longrightarrow>
         distinct (map task_id ts) \<and> (\<forall>t\<in>set ts. task_text t \<noteq> [])))"
  using store_inv_init store_inv_run[of "file" ver calls] store_inv_read[of "run ver calls file"]
  by (auto simp: task_list_inv_def)

theorem task_list_invariant_witness:
  "store_inv (run (lit ''1'')
      [(\<lparr>uuid4 = lit ''u1'', utcnow = lit ''t1''\<rparr>,
        \<lparr>params_name = lit ''add_task'', params_arguments = Some [(lit ''text'', JStr (lit ''Buy milk''))]\<rparr>),
       (\<lparr>uuid4 = lit ''u2'', utcnow = lit ''t2''\<rparr>,
        \<lparr>params_name = lit ''add_task'', params_arguments = Some [(lit ''text'', JStr (lit ''Walk''))]\<rparr>),
       (\<lparr>uuid4 = lit ''u3'', utcnow = lit ''t3''\<rparr>,
        \<lparr>params_name = lit ''mark_done'', params_arguments = Some [(lit ''task_id'', JStr (lit ''u1''))]\<rparr>)]
      (module_init NoFile)) \<and>
   read_store (run (lit ''1'')
      [(\<lparr>uuid4 = lit ''u1'', utcnow = lit ''t1''\<rparr>,
        \<lparr>params_name = lit ''add_task'', params_arguments = Some [(lit ''text'', JStr (lit ''Buy milk''))]\<rparr>),
       (\<lparr>uuid4 = lit ''u2'', utcnow = lit ''t2''\<rparr>,
        \<lparr>params_name = lit ''add_task'', params_arguments = Some [(lit ''text'', JStr (lit ''Walk''))]\<rparr>),
       (\<lparr>uuid4 = lit ''u3'', utcnow = lit ''t3''\<rparr>,
        \<lparr>params_name = lit ''mark_done'', params_arguments = Some [(lit ''task_id'', JStr (lit ''u1''))]\<rparr>)]
      (module_init NoFile)) =
   Inr [\<lparr>task_id = lit ''u1'', task_text = lit ''Buy milk'', task_done = JBool True,
          task_created_at = lit ''t1Z'', task_due_date = None\<rparr>,
        \<lparr>task_id = lit ''u2'', task_text = lit ''Walk'', task_done = JBool False,
          task_created_at = lit ''t2Z'', task_due_date = None\<rparr>]"
proof -
  let ?c1 = "(\<lparr>uuid4 = lit ''u1'', utcnow = lit ''t1''\<rparr>,
        \<lparr>params_name = lit ''add_task'', params_arguments = Some [(lit ''text'', JStr (lit ''Buy milk''))]\<rparr>)"
  let ?c2 = "(\<lparr>uuid4 = lit ''u2'', utcnow = lit ''t2''\<rparr>,
        \<lparr>params_name = lit ''add_task'', params_arguments = Some [(lit ''text'', JStr (lit ''Walk''))]\<rparr>)"
  let ?c3 = "(\<lparr>uuid4 = lit ''u3'', utcnow = lit ''t3''\<rparr>,
        \<lparr>params_name = lit ''mark_done'', params_arguments = Some [(lit ''task_id'', JStr (lit ''u1''))]\<rparr>)"
  let ?t1 = "\<lparr>task_id = lit ''u1'', task_text = lit ''Buy milk'', task_done = JBool False,
          task_created_at = lit ''t1Z'', task_due_date = None\<rparr>"
  let ?t2 = "\<lparr>task_id = lit ''u2'', task_text = lit ''Walk'', task_done = JBool False,
          task_created_at = lit ''t2Z'', task_due_date = None\<rparr>"
  have s1: "strip (lit ''Buy milk'') = lit ''Buy milk''" and s2: "strip (lit ''Walk'') = lit ''Walk''"
    by (simp_all add: strip_def lit_def py_isspace_def)
  have n1: "lit ''Buy milk'' \<noteq> []" and n2: "lit ''Walk'' \<noteq> []" and z: "lit ''t1'' @ lit ''Z'' = lit ''t1Z''"
    "lit ''t2'' @ lit ''Z'' = lit ''t2Z''"
    by (simp_all add: lit_def)
  have f0: "module_init NoFile = write_store []"
    by (simp add: module_init_def write_store_def tasks_data_of_def)
  have r0: "read_store (write_store []) = Inr []" by (simp add: read_write_store)
  have r1: "read_store (write_store [?t1]) = Inr [?t1]" by (simp add: read_write_store bool_done_def)
  have r2: "read_store (write_store [?t1, ?t2]) = Inr [?t1, ?t2]"
    by (simp add: read_write_store bool_done_def)
  have st1: "snd (handle_call_tool (lit ''1'') (fst ?c1) (snd ?c1) (write_store [])) = write_store [?t1]"
    by (simp add: snd_handle_call_tool snd_add_task request_args_def text_arg_def s1 n1 r0
        Task_init_def validate_str_def validate_bool_def validate_opt_str_def arg_or_None_def z)
  have st2: "snd (handle_call_tool (lit ''1'') (fst ?c2) (snd ?c2) (write_store [?t1])) = write_store [?t1, ?t2]"
    by (simp add: snd_handle_call_tool snd_add_task request_args_def text_arg_def s2 n2 r1
        Task_init_def validate_str_def validate_bool_def validate_opt_str_def arg_or_None_def z)
  have st3: "snd (handle_call_tool (lit ''1'') (fst ?c3) (snd ?c3) (write_store [?t1, ?t2])) =
      write_store [?t1\<lparr>task_done := JBool True\<rparr>, ?t2]"
    by (simp add: snd_handle_call_tool snd_mark_done request_args_def r2 arg_or_None_def done_arg_def)
  have h1: "store_inv (module_init NoFile)"
    using task_list_invariant by blast
  have h2: "fresh_draws (lit ''1'') [?c1, ?c2, ?c3] (module_init NoFile)"
    using st1 st2 st3 by (simp add: f0 fresh_uuid_def r0 r1 r2)
  have R: "run (lit ''1'') [?c1, ?c2, ?c3] (module_init NoFile) = write_store [?t1\<lparr>task_done := JBool True\<rparr>, ?t2]"
    using st1 st2 st3 by (simp add: f0)
  from task_list_invariant[of "module_init NoFile" "lit ''1''" "[?c1, ?c2, ?c3]"] h1 h2
  have "store_inv (run (lit ''1'') [?c1, ?c2, ?c3] (module_init NoFile))" by blast
  moreover have "read_store (run (lit ''1'') [?c1, ?c2, ?c3] (module_init NoFile)) =
      Inr [?t1\<lparr>task_done := JBool True\<rparr>, ?t2]"
    unfolding R by (simp add: read_write_store bool_done_def)
  ultimately show ?thesis by simp
qed

text \<open>
  Claim C6. \<open>get_tasks\<close> leaves the data file as it is, and a second \<open>get_tasks\<close>
  right after the first returns the same result, structured payload included, whatever
  the two calls draw from the clock and the random source.
\<close>

theorem get_tasks_read_only:
  assumes "params_name req = lit ''get_tasks''" and "params_name req' = lit ''get_tasks''"
  shows "snd (handle_call_tool ver e req file) = file \<and>
         fst (handle_call_tool ver e' req' (snd (handle_call_tool ver e req file))) =
           fst (handle_call_tool ver e req file)"
proof -
  have "snd (get_tasks ver file) = file"
    by (simp add: get_tasks_def respond_def split: sum.splits)
  then show ?thesis using assms by (simp add: handle_get_tasks)
qed

theorem get_tasks_read_only_witness:
  "snd (handle_call_tool (lit ''1'') \<lparr>uuid4 = lit ''u1'', utcnow = lit ''t1''\<rparr>
          \<lparr>params_name = lit ''get_tasks'', params_arguments = None\<rparr> (Document (JDict []))) =
     Document (JDict []) \<and>
   fst (handle_call_tool (lit ''1'') \<lparr>uuid4 = lit ''u2'', utcnow = lit ''t2''\<rparr>
          \<lparr>params_name = lit ''get_tasks'', params_arguments = Some []\<rparr>
          (snd (handle_call_tool (lit ''1'') \<lparr>uuid4 = lit ''u1'', utcnow = lit ''t1''\<rparr>
                  \<lparr>params_name = lit ''get_tasks'', params_arguments = None\<rparr>
                  (Document (JDict []))))) =
     fst (handle_call_tool (lit ''1'') \<lparr>uuid4 = lit ''u1'', utcnow = lit ''t1''\<rparr>
            \<lparr>params_name = lit ''get_tasks'', params_arguments = None\<rparr> (Document (JDict [])))"
  by (rule get_tasks_read_only) simp_all

text \<open>
  Claim C7, as the code has it. A document without a \<open>tasks\<close> field is not rejected:
  \<open>raw.get("tasks", [])\<close> reads it as the empty list.
\<close>

theorem read_store_missing_tasks_accepted:
  "map_of [] (lit ''tasks'') = (None :: json option) \<and> read_store (Document (JDict [])) = Inr []"
  by (simp add: read_store_def py_iter_def)

text \<open>
  Claim C7, amended. \<open>_read_store\<close> fails (the exception it raises is what the
  specification calls \<open>StorageError\<close>) when the data file is missing or is not JSON, when
  the document is not an object, when its \<open>tasks\<close> field is null, a boolean, a number, a
  non-empty string or a non-empty object, and when the \<open>tasks\<close> list holds a record that
  does not match the Task schema: a record that is not an object, that lacks a string
  \<open>id\<close>, \<open>text\<close> or \<open>created_at\<close>, whose \<open>done\<close> is a value that validation does not
  take for a boolean, or whose \<open>due_date\<close> is neither null nor a string. A document
  without a \<open>tasks\<close> field is not rejected but read as the empty list, and the file that
  the module creates on first run is read as the empty list.
\<close>

theorem read_store_rejects:
  "read_store NoFile = Inl FileNotFoundError \<and>
   read_store Malformed = Inl JSONDecodeError \<and>
   ((\<forall>kvs. raw \<noteq> JDict kvs) \<longrightarrow> read_store (Document raw) = Inl AttributeError) \<and>
   (map_of kvs0 (lit ''tasks'') = Some v \<and>
    (v = JNull \<or> (\<exists>b. v = JBool b) \<or> (\<exists>i. v = JInt i) \<or> (\<exists>c cs. v = JStr (c # cs)) \<or>
     (\<exists>kv kvs. v = JDict (kv # kvs))) \<longrightarrow>
      (\<exists>x. read_store (Document (JDict kvs0)) = Inl x)) \<and>
   (map_of kvs (lit ''tasks'') = Some (JList rs) \<and> r \<in> set rs \<and>
    ((\<forall>kw. r \<noteq> JDict kw) \<or>
     (\<exists>kw. r = JDict kw \<and>
        ((\<exists>k. k \<in> {lit ''id'', lit ''text'', lit ''created_at''} \<and>
            (\<forall>s. map_of kw k \<noteq> Some (JStr s))) \<or>
         (\<exists>d. map_of kw (lit ''done'') = Some d \<and> validate_bool d = None) \<or>
         (\<exists>d. map_of kw (lit ''due_date'') = Some d \<and> d \<noteq> JNull \<and> (\<forall>s. d \<noteq> JStr s))))) \<longrightarrow>
      (\<exists>x. read_store (Document (JDict kvs)) = Inl x)) \<and>
   (map_of kvs' (lit ''tasks'') = None \<longrightarrow> read_store (Document (JDict kvs')) = Inr []) \<and>
   read_store (module_init NoFile) = Inr []"
proof (intro conjI impI)
  show "read_store NoFile = Inl FileNotFoundError" "read_store Malformed = Inl JSONDecodeError"
    by (simp_all add: read_store_def)
  show "read_store (Document raw) = Inl AttributeError" if "\<forall>kvs. raw \<noteq> JDict kvs"
    using that by (cases raw) (simp_all add: read_store_def)
  show "read_store (Document (JDict kvs')) = Inr []" if "map_of kvs' (lit ''tasks'') = None"
    using that by (simp add: read_store_def py_iter_def)
  show "read_store (module_init NoFile) = Inr []"
    by (simp add: module_init_def read_store_empty)
  show "\<exists>x. read_store (Document (JDict kvs0)) = Inl x"
    if h: "map_of kvs0 (lit ''tasks'') = Some v \<and>
      (v = JNull \<or> (\<exists>b. v = JBool b) \<or> (\<exists>i. v = JInt i) \<or> (\<exists>c cs. v = JStr (c # cs)) \<or>
       (\<exists>kv kvs. v = JDict (kv # kvs)))"
  proof (cases v)
    case (JStr s)
    with h obtain c cs where "s = c # cs" by auto
    with h JStr show ?thesis by (simp add: read_store_def py_iter_def Task_of_def)
  next
    case (JDict kv)
    with h obtain k x kv' where "kv = (k, x) # kv'" by (cases kv) auto
    with h JDict show ?thesis by (simp add: read_store_def py_iter_def Task_of_def)
  next
    case (JList rs)
    with h show ?thesis by simp
  qed (use h in \<open>simp_all add: read_store_def py_iter_def\<close>)
  show "\<exists>x. read_store (Document (JDict kvs)) = Inl x"
    if h: "map_of kvs (lit ''tasks'') = Some (JList rs) \<and> r \<in> set rs \<and>
      ((\<forall>kw. r \<noteq> JDict kw) \<or>
       (\<exists>kw. r = JDict kw \<and>
          ((\<exists>k. k \<in> {lit ''id'', lit ''text'', lit ''created_at''} \<and>
              (\<forall>s. map_of kw k \<noteq> Some (JStr s))) \<or>
           (\<exists>d. map_of kw (lit ''done'') = Some d \<and> validate_bool d = None) \<or>
           (\<exists>d. map_of kw (lit ''due_date'') = Some d \<and> d \<noteq> JNull \<and> (\<forall>s. d \<noteq> JStr s)))))"
  proof -
    have "isl (Task_of r)"
    proof (cases "\<forall>kw. r \<noteq> JDict kw")
      case True
      then show ?thesis by (rule Task_of_not_dict)
    next
      case False
      with h obtain kw where kw: "r = JDict kw"
        "(\<exists>k. k \<in> {lit ''id'', lit ''text'', lit ''created_at''} \<and>
              (\<forall>s. map_of kw k \<noteq> Some (JStr s))) \<or>
         (\<exists>d. map_of kw (lit ''done'') = Some d \<and> validate_bool d = None) \<or>
         (\<exists>d. map_of kw (lit ''due_date'') = Some d \<and> d \<noteq> JNull \<and> (\<forall>s. d \<noteq> JStr s))"
        by blast
      from kw(2) have "Task_init kw = Inl ValidationError"
        using Task_init_required[of _ kw] Task_init_bad_done[of kw] Task_init_bad_due_date[of kw]
        by blast
      with kw(1) show ?thesis by (simp add: Task_of_def)
    qed
    with h have "isl (Task_list rs)" by (auto intro: Task_list_fails)
    then obtain x where "Task_list rs = Inl x" by (cases "Task_list rs") auto
    with h show ?thesis by (simp add: read_store_def py_iter_def)
  qed
qed

theorem read_store_rejects_witness:
  "read_store NoFile = Inl FileNotFoundError \<and>
   read_store Malformed = Inl JSONDecodeError \<and>
   read_store (Document (JList [])) = Inl AttributeError \<and>
   (\<exists>x. read_store (Document (JDict [(lit ''tasks'', JNull)])) = Inl x) \<and>
   (\<exists>x. read_store (Document (JDict [(lit ''tasks'',
        JList [JDict [(lit ''id'', JStr (lit ''a'')), (lit ''text'', JStr (lit ''Buy milk'')),
                      (lit ''done'', JNull), (lit ''created_at'', JStr (lit ''c''))]])])) = Inl x) \<and>
   read_store (Document (JDict [(lit ''version'', JInt 1)])) = Inr [] \<and>
   read_store (module_init NoFile) = Inr []"
proof -
  let ?kw = "[(lit ''id'', JStr (lit ''a'')), (lit ''text'', JStr (lit ''Buy milk'')),
              (lit ''done'', JNull), (lit ''created_at'', JStr (lit ''c''))]"
  let ?r = "JDict ?kw"
  let ?kvs = "[(lit ''tasks'', JList [?r])]"
  let ?kvs' = "[(lit ''version'', JInt 1)]"
  note inst = read_store_rejects[of "JList []" "[(lit ''tasks'', JNull)]" JNull ?kvs "[?r]" ?r ?kvs']
  have a: "\<forall>kvs. JList [] \<noteq> JDict kvs" by simp
  have n: "map_of [(lit ''tasks'', JNull)] (lit ''tasks'') = Some JNull \<and>
      (JNull = JNull \<or> (\<exists>b. JNull = JBool b) \<or> (\<exists>i. JNull = JInt i) \<or>
       (\<exists>c cs. JNull = JStr (c # cs)) \<or> (\<exists>kv kvs. JNull = JDict (kv # kvs)))"
    by simp
  have d: "\<exists>d. map_of ?kw (lit ''done'') = Some d \<and> validate_bool d = None"
    by (simp add: validate_bool_def)
  have b: "map_of ?kvs (lit ''tasks'') = Some (JList [?r]) \<and> ?r \<in> set [?r] \<and>
    ((\<forall>kw. ?r \<noteq> JDict kw) \<or>
     (\<exists>kw. ?r = JDict kw \<and>
        ((\<exists>k. k \<in> {lit ''id'', lit ''text'', lit ''created_at''} \<and>
            (\<forall>s. map_of kw k \<noteq> Some (JStr s))) \<or>
         (\<exists>d. map_of kw (lit ''done'') = Some d \<and> validate_bool d = None) \<or>
         (\<exists>d. map_of kw (lit ''due_date'') = Some d \<and> d \<noteq> JNull \<and> (\<forall>s. d \<noteq> JStr s)))))"
    using d by simp
  have c: "map_of ?kvs' (lit ''tasks'') = None" by simp
  from inst a b c n show ?thesis by blast
qed

text \<open>
  Claim C8. \<open>_render_widget_html\<close> computes the JSON text of the payload with every
  \<open></\<close> rewritten, but the page it returns does not carry it. For the default asset
  version and a list with one task whose text is \<open></script>\<close>: \<open>tasks_json\<close> is the
  escaped JSON text, the rendered page is the formatted template as \<open>format\<close> left it,
  it holds the placeholder \<open>{TASKS_JSON}\<close>, and the JSON text occurs nowhere in it.
\<close>

theorem widget_page_omits_task_json:
  \<open>tasks_json (tasks_data_of [\<lparr>task_id = lit ''a'', task_text = lit ''</script>'',
       task_done = JBool False, task_created_at = lit ''c'', task_due_date = None\<rparr>]) =
     lit ''{"tasks": [{"id": "a", "text": "<'' @ [92] @
     lit ''/script>", "done": false, "created_at": "c", "due_date": null}]}'' \<and>
   render_widget_html (lit ''1'') (tasks_data_of [\<lparr>task_id = lit ''a'', task_text = lit ''</script>'',
       task_done = JBool False, task_created_at = lit ''c'', task_due_date = None\<rparr>]) =
     format_widget (lit ''1'') \<and>
   (\<exists>page. render_widget_html (lit ''1'') (tasks_data_of [\<lparr>task_id = lit ''a'',
         task_text = lit ''</script>'', task_done = JBool False, task_created_at = lit ''c'',
         task_due_date = None\<rparr>]) = Inr page \<and>
      sublist (lit ''{TASKS_JSON}'') page \<and>
      \<not> sublist (tasks_json (tasks_data_of [\<lparr>task_id = lit ''a'', task_text = lit ''</script>'',
         task_done = JBool False, task_created_at = lit ''c'', task_due_date = None\<rparr>])) page)\<close>
proof (intro conjI)
  let ?D = "tasks_data_of [\<lparr>task_id = lit ''a'', task_text = lit ''</script>'',
       task_done = JBool False, task_created_at = lit ''c'', task_due_date = None\<rparr>]"
  show \<open>tasks_json ?D =
     lit ''{"tasks": [{"id": "a", "text": "<'' @ [92] @
     lit ''/script>", "done": false, "created_at": "c", "due_date": null}]}''\<close>
    by code_simp
  show "render_widget_html (lit ''1'') ?D = format_widget (lit ''1'')"
    by (rule render_default_version_keeps_placeholder)
  obtain page where p: "render_widget_html (lit ''1'') ?D = Inr page"
    using render_widget_html_ok by blast
  then have "\<not> sublist (tasks_json ?D) page \<and> sublist (lit ''{TASKS_JSON}'') page"
    unfolding tasks_data_of_def by (rule default_page_omits_json)
  with p show "\<exists>page. render_widget_html (lit ''1'') ?D = Inr page \<and>
      sublist (lit ''{TASKS_JSON}'') page \<and> \<not> sublist (tasks_json ?D) page"
    by blast
qed

text \<open>
  Claim C9. The widget HTML of a result is \<open>_render_widget_html\<close> of the asset version
  and of the task payload of that result, and of nothing else: two calls of the handler
  under the same asset version whose results carry the same payload carry the same HTML,
  whatever the tools, the data files, the clock and the strings drawn from \<open>uuid4\<close>.
\<close>

theorem widget_html_deterministic:
  assumes "handle_call_tool ver e req file = (res, file')"
    and "handle_call_tool ver e' req' file0 = (res', file0')"
    and "structuredContent res = structuredContent res'"
    and "meta res = Some html" and "meta res' = Some html'"
  shows "html = html' \<and>
         (\<exists>d. structuredContent res = Some d \<and> render_widget_html ver d = Inr html)"
proof -
  from handle_call_tool_meta[OF assms(1,4)] obtain d where
    d: "structuredContent res = Some d" "render_widget_html ver d = Inr html" by blast
  from handle_call_tool_meta[OF assms(2,5)] obtain d' where
    d': "structuredContent res' = Some d'" "render_widget_html ver d' = Inr html'" by blast
  from d(1) d'(1) assms(3) have "d = d'" by simp
  with d d' show ?thesis by simp
qed

theorem widget_html_deterministic_witness:
  "meta (fst (handle_call_tool (lit ''1'') \<lparr>uuid4 = lit ''u1'', utcnow = lit ''t1''\<rparr>
       \<lparr>params_name = lit ''get_tasks'', params_arguments = None\<rparr>
       (write_store [\<lparr>task_id = lit ''a'', task_text = lit ''Buy milk'', task_done = JBool False,
          task_created_at = lit ''c'', task_due_date = None\<rparr>]))) =
   meta (fst (handle_call_tool (lit ''1'') \<lparr>uuid4 = lit ''u2'', utcnow = lit ''t2''\<rparr>
       \<lparr>params_name = lit ''mark_done'',
        params_arguments = Some [(lit ''task_id'', JStr (lit ''a'')), (lit ''done'', JBool False)]\<rparr>
       (write_store [\<lparr>task_id = lit ''a'', task_text = lit ''Buy milk'', task_done = JBool True,
          task_created_at = lit ''c'', task_due_date = None\<rparr>]))) \<and>
   meta (fst (handle_call_tool (lit ''1'') \<lparr>uuid4 = lit ''u1'', utcnow = lit ''t1''\<rparr>
       \<lparr>params_name = lit ''get_tasks'', params_arguments = None\<rparr>
       (write_store [\<lparr>task_id = lit ''a'', task_text = lit ''Buy milk'', task_done = JBool False,
          task_created_at = lit ''c'', task_due_date = None\<rparr>]))) \<noteq> None"
proof -
  let ?t = "\<lparr>task_id = lit ''a'', task_text = lit ''Buy milk'', task_done = JBool False,
          task_created_at = lit ''c'', task_due_date = None\<rparr>"
  let ?t' = "\<lparr>task_id = lit ''a'', task_text = lit ''Buy milk'', task_done = JBool True,
          task_created_at = lit ''c'', task_due_date = None\<rparr>"
  let ?e1 = "\<lparr>uuid4 = lit ''u1'', utcnow = lit ''t1''\<rparr>"
  let ?e2 = "\<lparr>uuid4 = lit ''u2'', utcnow = lit ''t2''\<rparr>"
  let ?req1 = "\<lparr>params_name = lit ''get_tasks'', params_arguments = None\<rparr>"
  let ?args2 = "[(lit ''task_id'', JStr (lit ''a'')), (lit ''done'', JBool False)]"
  let ?req2 = "\<lparr>params_name = lit ''mark_done'', params_arguments = Some ?args2\<rparr>"
  let ?H1 = "handle_call_tool (lit ''1'') ?e1 ?req1 (write_store [?t])"
  let ?H2 = "handle_call_tool (lit ''1'') ?e2 ?req2 (write_store [?t'])"
  have r1: "read_store (write_store [?t]) = Inr [?t]" and r2: "read_store (write_store [?t']) = Inr [?t']"
    by (simp_all add: read_write_store bool_done_def)
  obtain html1 where 1: "?H1 = (widget_result Here_are_your_tasks (tasks_data_of [?t]) html1, write_store [?t])"
    using respond_ok[of "lit ''1''" "tasks_data_of [?t]" Here_are_your_tasks "write_store [?t]"]
    by (auto simp: handle_get_tasks get_tasks_def r1)
  obtain html2 msg where 2: "?H2 = (widget_result msg (tasks_data_of [?t]) html2, write_store [?t])"
    using mark_done_hit[OF r2, of 0 ?args2 "lit ''1''"]
    by (auto simp: handle_mark_done request_args_def arg_or_None_def done_arg_def)
  have m1: "meta (fst ?H1) = Some html1" and m2: "meta (fst ?H2) = Some html2"
    and s: "structuredContent (fst ?H1) = structuredContent (fst ?H2)"
    by (simp_all add: 1 2 widget_result_def)
  have "html1 = html2"
    using widget_html_deterministic[of "lit ''1''" ?e1 ?req1 "write_store [?t]" "fst ?H1" "snd ?H1"
        ?e2 ?req2 "write_store [?t']" "fst ?H2" "snd ?H2" html1 html2] m1 m2 s
    by simp
  with m1 m2 show ?thesis by simp
qed

text \<open>
  Claim C10. After a successful \<open>add_task\<close> the task stored last has the supplied
  text with leading and trailing whitespace removed. A \<open>mark_done\<close> call either
  leaves the data file as it is, or rewrites it with the list from before in which the
  first task whose id equals \<open>task_id\<close> has its \<open>done\<close> field set to the \<open>done\<close>
  argument and nothing else differs.
\<close>

theorem add_task_strips_mark_done_frame:
  "(params_name req = lit ''add_task'' \<and>
    map_of (request_args req) (lit ''text'') = Some (JStr s) \<and>
    handle_call_tool ver e req file = (res, file') \<and> \<not> isError res \<longrightarrow>
      (\<exists>tasks new. read_store file = Inr tasks \<and> read_store file' = Inr (tasks @ [new]) \<and>
         task_text new = strip s)) \<and>
   (params_name req2 = lit ''mark_done'' \<and>
    handle_call_tool ver e2 req2 file2 = (res2, file2') \<longrightarrow>
      file2' = file2 \<or>
      (\<exists>tasks i. read_store file2 = Inr tasks \<and> i < length tasks \<and>
         JStr (task_id (tasks ! i)) = arg_or_None (request_args req2) (lit ''task_id'') \<and>
         (\<forall>j<i. JStr (task_id (tasks ! j)) \<noteq> arg_or_None (request_args req2) (lit ''task_id'')) \<and>
         file2' = write_store (tasks[i := (tasks ! i)\<lparr>task_done := done_arg (request_args req2)\<rparr>])))"
proof (intro conjI impI)
  assume h: "params_name req = lit ''add_task'' \<and>
    map_of (request_args req) (lit ''text'') = Some (JStr s) \<and>
    handle_call_tool ver e req file = (res, file') \<and> \<not> isError res"
  then have "add_task ver e (request_args req) file = (res, file')"
    using handle_add_task[of req ver e "file"] by auto
  from add_task_success[OF this] h
  obtain tasks new where a: "strip s \<noteq> []" "read_store file = Inr tasks"
    "Task_init [(lit ''id'', JStr (uuid4 e)), (lit ''text'', JStr (strip s)),
                (lit ''done'', JBool False), (lit ''created_at'', JStr (utcnow e @ lit ''Z'')),
                (lit ''due_date'', arg_or_None (request_args req) (lit ''due_date''))] = Inr new"
    "file' = write_store (tasks @ [new])"
    by auto
  have "list_all bool_done (tasks @ [new])"
    using read_store_bool_done[OF a(2)] Task_init_bool_done[OF a(3)] by simp
  then have "read_store file' = Inr (tasks @ [new])"
    using a(4) by (simp add: read_write_store)
  then show "\<exists>tasks new. read_store file = Inr tasks \<and> read_store file' = Inr (tasks @ [new]) \<and>
         task_text new = strip s"
    using a(2) Task_init_new[OF a(3)] by blast
next
  assume h: "params_name req2 = lit ''mark_done'' \<and>
    handle_call_tool ver e2 req2 file2 = (res2, file2')"
  then have "mark_done ver (request_args req2) file2 = (res2, file2')"
    using handle_mark_done[of req2 ver e2 file2] by auto
  from mark_done_cases[OF this]
  show "file2' = file2 \<or>
      (\<exists>tasks i. read_store file2 = Inr tasks \<and> i < length tasks \<and>
         JStr (task_id (tasks ! i)) = arg_or_None (request_args req2) (lit ''task_id'') \<and>
         (\<forall>j<i. JStr (task_id (tasks ! j)) \<noteq> arg_or_None (request_args req2) (lit ''task_id'')) \<and>
         file2' = write_store (tasks[i := (tasks ! i)\<lparr>task_done := done_arg (request_args req2)\<rparr>]))"
    by blast
qed

theorem add_task_strips_mark_done_frame_witness:
  "(\<exists>new. read_store (snd (handle_call_tool (lit ''1'')
        \<lparr>uuid4 = lit ''u1'', utcnow = lit ''2024-01-01T00:00:00''\<rparr>
        \<lparr>params_name = lit ''add_task'',
         params_arguments = Some [(lit ''text'', JStr (lit '' Buy milk ''))]\<rparr>
        (Document (JDict [(lit ''tasks'', JList [])])))) = Inr [new] \<and>
      task_text new = lit ''Buy milk'') \<and>
   snd (handle_call_tool (lit ''1'') \<lparr>uuid4 = lit ''u2'', utcnow = lit ''t2''\<rparr>
     \<lparr>params_name = lit ''mark_done'', params_arguments = Some [(lit ''task_id'', JStr (lit ''b''))]\<rparr>
     (write_store
        [\<lparr>task_id = lit ''a'', task_text = lit ''x'', task_done = JBool False,
          task_created_at = lit ''c1'', task_due_date = None\<rparr>,
         \<lparr>task_id = lit ''b'', task_text = lit ''y'', task_done = JBool False,
          task_created_at = lit ''c2'', task_due_date = None\<rparr>,
         \<lparr>task_id = lit ''b'', task_text = lit ''z'', task_done = JBool False,
          task_created_at = lit ''c3'', task_due_date = None\<rparr>])) =
   write_store
        [\<lparr>task_id = lit ''a'', task_text = lit ''x'', task_done = JBool False,
          task_created_at = lit ''c1'', task_due_date = None\<rparr>,
         \<lparr>task_id = lit ''b'', task_text = lit ''y'', task_done = JBool True,
          task_created_at = lit ''c2'', task_due_date = None\<rparr>,
         \<lparr>task_id = lit ''b'', task_text = lit ''z'', task_done = JBool False,
          task_created_at = lit ''c3'', task_due_date = None\<rparr>]"
proof -
  let ?e = "\<lparr>uuid4 = lit ''u1'', utcnow = lit ''2024-01-01T00:00:00''\<rparr>"
  let ?args = "[(lit ''text'', JStr (lit '' Buy milk ''))]"
  let ?req = "\<lparr>params_name = lit ''add_task'', params_arguments = Some ?args\<rparr>"
  let ?file = "Document (JDict [(lit ''tasks'', JList [])])"
  let ?new = "\<lparr>task_id = lit ''u1'', task_text = lit ''Buy milk'', task_done = JBool False,
         task_created_at = lit ''2024-01-01T00:00:00Z'', task_due_date = None\<rparr>"
  let ?e2 = "\<lparr>uuid4 = lit ''u2'', utcnow = lit ''t2''\<rparr>"
  let ?args2 = "[(lit ''task_id'', JStr (lit ''b''))]"
  let ?req2 = "\<lparr>params_name = lit ''mark_done'', params_arguments = Some ?args2\<rparr>"
  let ?ta = "\<lparr>task_id = lit ''a'', task_text = lit ''x'', task_done = JBool False,
          task_created_at = lit ''c1'', task_due_date = None\<rparr>"
  let ?tb = "\<lparr>task_id = lit ''b'', task_text = lit ''y'', task_done = JBool False,
          task_created_at = lit ''c2'', task_due_date = None\<rparr>"
  let ?tc = "\<lparr>task_id = lit ''b'', task_text = lit ''z'', task_done = JBool False,
          task_created_at = lit ''c3'', task_due_date = None\<rparr>"
  let ?file2 = "write_store [?ta, ?tb, ?tc]"
  let ?H = "handle_call_tool (lit ''1'') ?e ?req ?file"
  let ?H2 = "handle_call_tool (lit ''1'') ?e2 ?req2 ?file2"
  note inst = add_task_strips_mark_done_frame[of ?req "lit '' Buy milk ''" "lit ''1''" ?e ?file
      "fst ?H" "snd ?H" ?req2 ?e2 ?file2 "fst ?H2" "snd ?H2"]
  have st: "strip (lit '' Buy milk '') = lit ''Buy milk''"
    by (simp add: strip_def lit_def py_isspace_def)
  have ne: "strip (lit '' Buy milk '') \<noteq> []" by (simp add: st) (simp add: lit_def)
  have ti: "Task_init [(lit ''id'', JStr (uuid4 ?e)), (lit ''text'', JStr (strip (lit '' Buy milk ''))),
                    (lit ''done'', JBool False), (lit ''created_at'', JStr (utcnow ?e @ lit ''Z'')),
                    (lit ''due_date'', arg_or_None ?args (lit ''due_date''))] = Inr ?new"
    by (simp add: st Task_init_def validate_str_def validate_bool_def validate_opt_str_def
        arg_or_None_def) (simp add: lit_def)
  have "map_of ?args (lit ''text'') = Some (JStr (lit '' Buy milk ''))" by simp
  from add_task_ok[OF this ne read_store_empty ti, of "lit ''1''"]
  have ok: "\<not> isError (fst ?H)"
    by (auto simp: handle_add_task request_args_def widget_result_def)
  have "\<exists>tasks new. read_store ?file = Inr tasks \<and> read_store (snd ?H) = Inr (tasks @ [new]) \<and>
          task_text new = strip (lit '' Buy milk '')"
    using inst ok by (simp add: request_args_def)
  then have A: "\<exists>new. read_store (snd ?H) = Inr [new] \<and> task_text new = lit ''Buy milk''"
    by (auto simp: read_store_empty st)
  have r2: "read_store ?file2 = Inr [?ta, ?tb, ?tc]"
    by (rule read_write_store) (simp add: bool_done_def)
  have hit: "\<exists>html msg. ?H2 = (widget_result msg
       (tasks_data_of ([?ta, ?tb, ?tc][1 := ([?ta, ?tb, ?tc] ! 1)\<lparr>task_done := done_arg ?args2\<rparr>])) html,
       write_store ([?ta, ?tb, ?tc][1 := ([?ta, ?tb, ?tc] ! 1)\<lparr>task_done := done_arg ?args2\<rparr>]))"
    using mark_done_hit[OF r2, of 1 ?args2 "lit ''1''"]
    by (simp add: handle_mark_done request_args_def arg_or_None_def)
  have changed: "snd ?H2 \<noteq> ?file2"
    using hit by (auto simp: write_store_def tasks_data_of_def model_dump_def done_arg_def)
  have "snd ?H2 = ?file2 \<or>
      (\<exists>tasks i. read_store ?file2 = Inr tasks \<and> i < length tasks \<and>
         JStr (task_id (tasks ! i)) = JStr (lit ''b'') \<and>
         (\<forall>j<i. JStr (task_id (tasks ! j)) \<noteq> JStr (lit ''b'')) \<and>
         snd ?H2 = write_store (tasks[i := (tasks ! i)\<lparr>task_done := JBool True\<rparr>]))"
    using inst by (simp add: request_args_def arg_or_None_def done_arg_def)
  with changed obtain tasks i where i: "read_store ?file2 = Inr tasks" "i < length tasks"
    "JStr (task_id (tasks ! i)) = JStr (lit ''b'')"
    "\<forall>j<i. JStr (task_id (tasks ! j)) \<noteq> JStr (lit ''b'')"
    "snd ?H2 = write_store (tasks[i := (tasks ! i)\<lparr>task_done := JBool True\<rparr>])"
    by blast
  have ts: "tasks = [?ta, ?tb, ?tc]" using i(1) r2 by simp
  have "i = 1"
  proof -
    from i(2) ts consider "i = 0" | "i = 1" | "i = 2" by fastforce
    then show ?thesis
    proof cases
      case 1 with i(3) ts show ?thesis by simp
    next
      case 2 then show ?thesis .
    next
      case 3 with i(4) have "JStr (task_id (tasks ! 1)) \<noteq> JStr (lit ''b'')" by simp
      with ts show ?thesis by simp
    qed
  qed
  with i(5) ts have B: "snd ?H2 = write_store [?ta, ?tb\<lparr>task_done := JBool True\<rparr>, ?tc]" by simp
  from A B show ?thesis by simp
qed

end
